theory Spec2Isabelle
  imports Complex_Main "HOL-Library.Multiset" "HOL-Library.Log_Nat" "HOL-Library.Code_Target_Nat"
    "HOL-Library.Product_Lexorder"
begin

section \<open>SmartCart: the cart store and the comparison engine\<close>

text \<open>
  The development embeds the cart logic of the application component (the file
  \<^verbatim>\<open>src/components/CartItemRow.tsx\<close>, which holds the row component, the shared types
  and the application component) and the image analysis service
  (\<^verbatim>\<open>src/unnamed/part_000\<close>).

  Conventions of the embedding.
  \<^item> A JavaScript string is the list of its UTF-16 code units, each a number
    (\<^typ>\<open>nat list\<close>). \<open>ascii\<close> gives the code units of a literal of ASCII characters.
  \<^item> A JavaScript number is a value of the type \<open>number\<close>: a finite value, one of the
    two infinities or \<^verbatim>\<open>NaN\<close>. The arithmetic is that of IEEE 754 binary64: the exact
    result rounded to the nearest double, ties to even, with gradual underflow and
    overflow to an infinity. The two zeros are one value: on doubles the code below never
    divides by a zero, so only a formatter could tell them apart.
  \<^item> A quantity is an integer (\<^typ>\<open>int\<close>): the source only ever stores \<open>1\<close> and adds or
    subtracts \<open>1\<close>, which is exact on doubles far beyond any cart.
  \<^item> An optional field (\<^verbatim>\<open>category?: string\<close>) is an \<^typ>\<open>'a option\<close>; the truthiness
    tests of the source are written out (\<open>0\<close>, \<^verbatim>\<open>NaN\<close> and the empty string are falsy).
  \<^item> React state is passed explicitly: a handler takes the current value and returns the
    next one. The external effects (\<^verbatim>\<open>uuidv4\<close>, the analysis call) act on an explicit
    world \<open>'w\<close>. A handler runs to its end before the next action starts.
  \<^item> Functions of the platform that are tables rather than code
    (\<^verbatim>\<open>String.prototype.toLowerCase\<close>, \<^verbatim>\<open>parseFloat\<close>, the currency formatter) are
    parameters.
\<close>

subsection \<open>Strings\<close>

type_synonym js_string = "nat list"

definition ascii :: "string \<Rightarrow> js_string" where
  "ascii s = map of_char s"

text \<open>The classes \<^verbatim>\<open>\d\<close> and \<^verbatim>\<open>[a-zA-Z]\<close> of a regular expression without flags.\<close>

definition is_digit :: "nat \<Rightarrow> bool" where
  "is_digit c = (48 \<le> c \<and> c \<le> 57)"

definition is_alpha :: "nat \<Rightarrow> bool" where
  "is_alpha c = ((65 \<le> c \<and> c \<le> 90) \<or> (97 \<le> c \<and> c \<le> 122))"

text \<open>
  White space and line terminators, the characters that \<^verbatim>\<open>trim\<close> strips and the class
  \<^verbatim>\<open>\s\<close> matches: tab, line feed, vertical tab, form feed, carriage return, space,
  no-break space, the space separators \<^verbatim>\<open>U+1680\<close>, \<^verbatim>\<open>U+2000\<close> to \<^verbatim>\<open>U+200A\<close>, \<^verbatim>\<open>U+202F\<close>,
  \<^verbatim>\<open>U+205F\<close> and \<^verbatim>\<open>U+3000\<close>, the line and paragraph separators and the byte order mark.
\<close>

definition is_space :: "nat \<Rightarrow> bool" where
  "is_space c =
     ((9 \<le> c \<and> c \<le> 13) \<or> c = 32 \<or> c = 160 \<or> c = 5760 \<or> (8192 \<le> c \<and> c \<le> 8202)
      \<or> c = 8232 \<or> c = 8233 \<or> c = 8239 \<or> c = 8287 \<or> c = 12288 \<or> c = 65279)"

text \<open>The number a run of decimal digits denotes.\<close>

definition digits_value :: "js_string \<Rightarrow> nat" where
  "digits_value ds = foldl (\<lambda>acc c. 10 * acc + (c - 48)) 0 ds"

text \<open>\<^verbatim>\<open>s.replace(/_/g, ' ')\<close>\<close>

definition replace_underscores :: "js_string \<Rightarrow> js_string" where
  "replace_underscores s = map (\<lambda>c. if c = 95 then 32 else c) s"

definition trim :: "js_string \<Rightarrow> js_string" where
  "trim s = rev (dropWhile is_space (rev (dropWhile is_space s)))"

text \<open>\<^verbatim>\<open>s.split(' ')[0]\<close>: the text before the first space character.\<close>

definition split_space_first :: "js_string \<Rightarrow> js_string" where
  "split_space_first s = takeWhile (\<lambda>c. c \<noteq> 32) s"

subsection \<open>Numbers\<close>

datatype number = NaN | NegInfinity | Finite rat | PosInfinity

definition pow2 :: "int \<Rightarrow> rat" where
  "pow2 k = 2 powi k"

text \<open>
  The binary exponent of a positive rational, \<open>\<lfloor>log\<^sub>2 x\<rfloor>\<close>, from the bit lengths of its
  numerator and denominator.
\<close>

definition ilog2 :: "rat \<Rightarrow> int" where
  "ilog2 x = (case quotient_of x of (p, q) \<Rightarrow>
     let d = bitlen p - bitlen q in if pow2 d \<le> x then d else d - 1)"

definition round_half_even :: "rat \<Rightarrow> int" where
  "round_half_even y =
     (let f = \<lfloor>y\<rfloor>; r = y - of_int f
      in if r < 1 / 2 then f else if r > 1 / 2 then f + 1 else if even f then f else f + 1)"

text \<open>
  Rounding to binary64: 53 significant bits at the exponent of the value, the exponent
  not below \<open>-1022\<close> (below it the doubles are the multiples of \<open>2\<^sup>-\<^sup>1\<^sup>0\<^sup>7\<^sup>4\<close>), and an
  infinity when the rounded value reaches \<open>2\<^sup>1\<^sup>0\<^sup>2\<^sup>4\<close>.
\<close>

definition double_overflow :: rat where
  "double_overflow = pow2 1024"

definition round_double :: "rat \<Rightarrow> number" where
  "round_double x =
     (if x = 0 then Finite 0
      else
        let e = max (ilog2 \<bar>x\<bar>) (- 1022);
            ulp = pow2 (e - 52);
            r = of_int (round_half_even (x / ulp)) * ulp
        in if r \<ge> double_overflow then PosInfinity
           else if r \<le> - double_overflow then NegInfinity
           else Finite r)"

text \<open>The comparisons \<^verbatim>\<open><\<close>, \<^verbatim>\<open>>\<close> and \<^verbatim>\<open><=\<close>: false as soon as an operand is \<^verbatim>\<open>NaN\<close>.\<close>

definition num_lt :: "number \<Rightarrow> number \<Rightarrow> bool" where
  "num_lt a b =
     (case (a, b) of
        (Finite x, Finite y) \<Rightarrow> x < y
      | (NegInfinity, Finite y) \<Rightarrow> True
      | (NegInfinity, PosInfinity) \<Rightarrow> True
      | (Finite x, PosInfinity) \<Rightarrow> True
      | _ \<Rightarrow> False)"

definition num_gt :: "number \<Rightarrow> number \<Rightarrow> bool" where
  "num_gt a b = num_lt b a"


definition truthy :: "number \<Rightarrow> bool" where
  "truthy x = (x \<noteq> NaN \<and> x \<noteq> Finite 0)"

definition negative :: "number \<Rightarrow> bool" where
  "negative a = num_lt a (Finite 0)"

definition num_neg :: "number \<Rightarrow> number" where
  "num_neg a =
     (case a of NaN \<Rightarrow> NaN | NegInfinity \<Rightarrow> PosInfinity
      | Finite x \<Rightarrow> Finite (- x) | PosInfinity \<Rightarrow> NegInfinity)"

definition num_add :: "number \<Rightarrow> number \<Rightarrow> number" where
  "num_add a b =
     (case (a, b) of
        (Finite x, Finite y) \<Rightarrow> round_double (x + y)
      | (NaN, _) \<Rightarrow> NaN
      | (_, NaN) \<Rightarrow> NaN
      | (PosInfinity, NegInfinity) \<Rightarrow> NaN
      | (NegInfinity, PosInfinity) \<Rightarrow> NaN
      | (PosInfinity, _) \<Rightarrow> PosInfinity
      | (_, PosInfinity) \<Rightarrow> PosInfinity
      | _ \<Rightarrow> NegInfinity)"

definition num_sub :: "number \<Rightarrow> number \<Rightarrow> number" where
  "num_sub a b = num_add a (num_neg b)"

definition num_mul :: "number \<Rightarrow> number \<Rightarrow> number" where
  "num_mul a b =
     (case (a, b) of
        (Finite x, Finite y) \<Rightarrow> round_double (x * y)
      | (NaN, _) \<Rightarrow> NaN
      | (_, NaN) \<Rightarrow> NaN
      | _ \<Rightarrow> if a = Finite 0 \<or> b = Finite 0 then NaN
             else if negative a = negative b then PosInfinity else NegInfinity)"

definition num_div :: "number \<Rightarrow> number \<Rightarrow> number" where
  "num_div a b =
     (case (a, b) of
        (NaN, _) \<Rightarrow> NaN
      | (_, NaN) \<Rightarrow> NaN
      | (Finite x, Finite y) \<Rightarrow>
          if y = 0 then (if x = 0 then NaN else if x < 0 then NegInfinity else PosInfinity)
          else round_double (x / y)
      | (Finite x, _) \<Rightarrow> Finite 0
      | (_, Finite y) \<Rightarrow> if negative a = (y < 0) then PosInfinity else NegInfinity
      | _ \<Rightarrow> NaN)"

text \<open>\<^verbatim>\<open>Math.min\<close> of two numbers.\<close>

definition Math_min :: "number \<Rightarrow> number \<Rightarrow> number" where
  "Math_min a b = (if a = NaN \<or> b = NaN then NaN else if num_lt b a then b else a)"

text \<open>A quantity as the number it is.\<close>

definition num_of_int :: "int \<Rightarrow> number" where
  "num_of_int q = round_double (of_int q)"

definition is_finite :: "number \<Rightarrow> bool" where
  "is_finite a = (case a of Finite x \<Rightarrow> True | _ \<Rightarrow> False)"

subsection \<open>Data model (\<^verbatim>\<open>types.ts\<close>)\<close>

record ScannedItem =
  productName :: js_string
  price :: number
  category :: "js_string option"
  measureValue :: "number option"
  measureUnit :: "js_string option"

record CartItem = ScannedItem +
  id_item :: js_string
  quantity :: int

record AnalysisState =
  isAnalyzing :: bool
  error :: "js_string option"

text \<open>The part of the application state the handlers below read and write.\<close>

record AppState =
  items :: "CartItem list"
  status :: AnalysisState
  analyzingProgress :: "(nat \<times> nat) option"

subsection \<open>Truthiness of optional fields\<close>

definition truthy_number :: "number option \<Rightarrow> bool" where
  "truthy_number v = (case v of None \<Rightarrow> False | Some x \<Rightarrow> truthy x)"

definition truthy_string :: "js_string option \<Rightarrow> bool" where
  "truthy_string s = (case s of None \<Rightarrow> False | Some x \<Rightarrow> x \<noteq> [])"

subsection \<open>Cart store: the row handlers and the store callbacks\<close>

text \<open>
  \<^verbatim>\<open>Partial<CartItem>\<close> as the two call sites build it: \<^verbatim>\<open>{ quantity: q }\<close> and
  \<^verbatim>\<open>{ productName: n }\<close>. \<open>merge_updates\<close> is the spread \<^verbatim>\<open>{ ...item, ...updates }\<close>.
\<close>

datatype PartialCartItem = QuantityUpdate int | ProductNameUpdate js_string

fun merge_updates :: "PartialCartItem \<Rightarrow> CartItem \<Rightarrow> CartItem" where
  "merge_updates (QuantityUpdate q) item = item\<lparr>quantity := q\<rparr>"
| "merge_updates (ProductNameUpdate n) item = item\<lparr>productName := n\<rparr>"

definition handleUpdateItem :: "js_string \<Rightarrow> PartialCartItem \<Rightarrow> CartItem list \<Rightarrow> CartItem list" where
  "handleUpdateItem i updates prev =
     map (\<lambda>item. if id_item item = i then merge_updates updates item else item) prev"

definition handleRemoveItem :: "js_string \<Rightarrow> CartItem list \<Rightarrow> CartItem list" where
  "handleRemoveItem i prev = filter (\<lambda>item. id_item item \<noteq> i) prev"

text \<open>
  The handlers of a row close over the entry \<open>item\<close> the row renders; \<open>onUpdate\<close> and
  \<open>onRemove\<close> are \<open>handleUpdateItem\<close> and \<open>handleRemoveItem\<close>.
\<close>

definition handleIncrement :: "CartItem \<Rightarrow> CartItem list \<Rightarrow> CartItem list" where
  "handleIncrement item prev =
     handleUpdateItem (id_item item) (QuantityUpdate (quantity item + 1)) prev"

definition handleDecrement :: "CartItem \<Rightarrow> CartItem list \<Rightarrow> CartItem list" where
  "handleDecrement item prev =
     (if quantity item > 1
      then handleUpdateItem (id_item item) (QuantityUpdate (quantity item - 1)) prev
      else handleRemoveItem (id_item item) prev)"

definition handleNameBlur :: "js_string \<Rightarrow> CartItem \<Rightarrow> CartItem list \<Rightarrow> CartItem list" where
  "handleNameBlur tempName item prev =
     (if trim tempName \<noteq> productName item
      then handleUpdateItem (id_item item) (ProductNameUpdate tempName) prev
      else prev)"

text \<open>\<^verbatim>\<open>if (window.confirm(...)) setItems([])\<close>; the answer of the dialog is an input.\<close>

definition handleClearAll :: "bool \<Rightarrow> CartItem list \<Rightarrow> CartItem list" where
  "handleClearAll confirmed prev = (if confirmed then [] else prev)"

subsection \<open>Totals\<close>

text \<open>\<^verbatim>\<open>items.reduce((sum, item) => sum + f(item), 0)\<close> is a left fold from \<open>0\<close>.\<close>

definition totalCost :: "CartItem list \<Rightarrow> number" where
  "totalCost its =
     foldl (\<lambda>sum item. num_add sum (num_mul (price item) (num_of_int (quantity item))))
       (Finite 0) its"

definition itemCount :: "CartItem list \<Rightarrow> int" where
  "itemCount its = foldl (\<lambda>sum item. sum + quantity item) 0 its"

text \<open>\<^verbatim>\<open>budget !== null && totalCost > budget\<close>\<close>

definition isOverBudget :: "number option \<Rightarrow> CartItem list \<Rightarrow> bool" where
  "isOverBudget budget its =
     (case budget of None \<Rightarrow> False | Some b \<Rightarrow> num_gt (totalCost its) b)"

text \<open>\<^verbatim>\<open>budget ? Math.min((totalCost / budget) * 100, 100) : 0\<close>\<close>

definition budgetPercentage :: "number option \<Rightarrow> CartItem list \<Rightarrow> number" where
  "budgetPercentage budget its =
     (case budget of
        None \<Rightarrow> Finite 0
      | Some b \<Rightarrow>
          if truthy b
          then Math_min (num_mul (num_div (totalCost its) b) (Finite 100)) (Finite 100)
          else Finite 0)"

text \<open>\<^verbatim>\<open>budget ? budget - totalCost : 0\<close>\<close>

definition remainingBudget :: "number option \<Rightarrow> CartItem list \<Rightarrow> number" where
  "remainingBudget budget its =
     (case budget of
        None \<Rightarrow> Finite 0
      | Some b \<Rightarrow> if truthy b then num_sub b (totalCost its) else Finite 0)"

text \<open>
  The balance that \<open>handleFinalize\<close> prints in the report:
  \<^verbatim>\<open>if (budget !== null) { const diff = budget - totalCost; ... }\<close>; without a budget the
  report has no balance.
\<close>

definition finalize_diff :: "number option \<Rightarrow> CartItem list \<Rightarrow> number option" where
  "finalize_diff budget its =
     (case budget of None \<Rightarrow> None | Some b \<Rightarrow> Some (num_sub b (totalCost its)))"

subsection \<open>External collaborators\<close>

text \<open>
  Errors are values. The collaborators the source calls but does not define are fields of
  an environment: the configured credential, the file reader, the model call (its result
  is the \<^verbatim>\<open>text\<close> of the response, absent when the response has none), the JSON parser,
  the identifier generator, \<^verbatim>\<open>parseFloat\<close> and \<^verbatim>\<open>String.prototype.toLowerCase\<close>. The
  ones with an effect take the world and return the next one. The parser returns a record
  of the declared type: the response is generated under the schema that declares these
  fields, and the source casts the parsed value without a check.
\<close>

datatype js_error = ApiKeyMissing | ReaderFailed | CallFailed | ParseFailed
  | AnalysisFailed | TypeError

record ('f, 'w) Env =
  apiKey :: js_string
  file_type :: "'f \<Rightarrow> js_string"
  fileToBase64 :: "'f \<Rightarrow> 'w \<Rightarrow> (js_error + js_string) \<times> 'w"
  generateContent :: "js_string \<Rightarrow> js_string \<Rightarrow> 'w \<Rightarrow> (js_error + js_string option) \<times> 'w"
  JSON_parse :: "js_string \<Rightarrow> js_error + ScannedItem"
  uuidv4 :: "'w \<Rightarrow> js_string \<times> 'w"
  parseFloat :: "js_string \<Rightarrow> number"
  toLowerCase :: "js_string \<Rightarrow> js_string"

subsection \<open>The analysis service (\<^verbatim>\<open>analyzeProductImage\<close>)\<close>

text \<open>
  The credential check and the file conversion come before the \<^verbatim>\<open>try\<close> block, so their
  errors leave the function as they are; every error inside the block (the call, an empty
  response text, the parse) is caught and replaced by the one analysis error.
\<close>

definition analyzeProductImage ::
  "('f, 'w) Env \<Rightarrow> 'f \<Rightarrow> 'w \<Rightarrow> (js_error + ScannedItem) \<times> 'w" where
  "analyzeProductImage env file w =
     (if apiKey env = [] then (Inl ApiKeyMissing, w)
      else case fileToBase64 env file w of
        (Inl e, w1) \<Rightarrow> (Inl e, w1)
      | (Inr base64Data, w1) \<Rightarrow>
          (case generateContent env (file_type env file) base64Data w1 of
             (Inl e, w2) \<Rightarrow> (Inl AnalysisFailed, w2)
           | (Inr None, w2) \<Rightarrow> (Inl AnalysisFailed, w2)
           | (Inr (Some text), w2) \<Rightarrow>
               if text = [] then (Inl AnalysisFailed, w2)
               else (case JSON_parse env text of
                       Inl e \<Rightarrow> (Inl AnalysisFailed, w2)
                     | Inr data \<Rightarrow> (Inr data, w2))))"

subsection \<open>Adding entries: the file handler\<close>

text \<open>The message \<^verbatim>\<open>"Alguns arquivos n\~ao puderam ser processados."\<close>\<close>

definition batch_error_message :: js_string where
  "batch_error_message = ascii ''Alguns arquivos n'' @ [227] @ ascii ''o puderam ser processados.''"

definition newItem_of_result :: "js_string \<Rightarrow> ScannedItem \<Rightarrow> CartItem" where
  "newItem_of_result newId result =
     \<lparr>productName = productName result, price = price result, category = category result,
      measureValue = measureValue result, measureUnit = measureUnit result,
      id_item = newId, quantity = 1\<rparr>"

text \<open>
  The \<^verbatim>\<open>for\<close> loop of \<open>handleFileChange\<close>, from index \<open>i\<close> on: the files still to do, the
  locals \<open>newItems\<close> and \<open>errorMsg\<close>, the world and the state. Each round sets the progress,
  awaits the analysis of one file and only then goes on to the next file; an error is
  caught inside the round.
\<close>

fun file_loop ::
  "('f, 'w) Env \<Rightarrow> nat \<Rightarrow> 'f list \<Rightarrow> nat \<Rightarrow> CartItem list \<Rightarrow> js_string option \<Rightarrow> 'w \<Rightarrow> AppState
     \<Rightarrow> CartItem list \<times> js_string option \<times> 'w \<times> AppState" where
  "file_loop env n_files [] i newItems errorMsg w st = (newItems, errorMsg, w, st)"
| "file_loop env n_files (file # rest) i newItems errorMsg w st =
     (let st1 = st\<lparr>analyzingProgress := Some (i + 1, n_files)\<rparr> in
      case analyzeProductImage env file w of
        (Inr result, w1) \<Rightarrow>
          (let (newId, w2) = uuidv4 env w1 in
           file_loop env n_files rest (i + 1) (newItems @ [newItem_of_result newId result])
             errorMsg w2 st1)
      | (Inl e, w1) \<Rightarrow>
          file_loop env n_files rest (i + 1) newItems (Some batch_error_message) w1 st1)"

definition handleFileChange :: "('f, 'w) Env \<Rightarrow> 'f list \<Rightarrow> 'w \<times> AppState \<Rightarrow> 'w \<times> AppState" where
  "handleFileChange env files ws =
     (case ws of (w, st) \<Rightarrow>
        if files = [] then (w, st)
        else
          let st0 = st\<lparr>status := \<lparr>isAnalyzing = True, error = None\<rparr>,
                       analyzingProgress := Some (0, length files)\<rparr>
          in case file_loop env (length files) files 0 [] None w st0 of
               (newItems, errorMsg, w', st1) \<Rightarrow>
                 (w', st1\<lparr>items := newItems @ items st1,
                         status := \<lparr>isAnalyzing = False, error = errorMsg\<rparr>,
                         analyzingProgress := None\<rparr>))"

subsection \<open>Adding entries: the manual form\<close>

text \<open>\<^verbatim>\<open>s.replace(',', '.')\<close> with a string pattern replaces the first comma only.\<close>

fun replace_first_comma :: "js_string \<Rightarrow> js_string" where
  "replace_first_comma [] = []"
| "replace_first_comma (c # cs) =
     (if c = 44 then 46 # cs else c # replace_first_comma cs)"

text \<open>
  \<^verbatim>\<open>manualSize.match(/(\d+(?:\.\d+)?)\s*([a-zA-Z]+)/)\<close>. \<open>size_match_at\<close> matches at the
  start of its argument, every quantifier taking all it can. Nothing is lost by not
  backtracking: a shorter run of digits, spaces or letters is followed by a character of
  the same class, which the next part of the pattern rejects, and without the optional
  fraction the next character is the dot. \<open>size_match\<close> tries the start positions from
  the left, as the regular expression does. The result is the pair of the two groups.
\<close>

definition size_match_at :: "js_string \<Rightarrow> (js_string \<times> js_string) option" where
  "size_match_at s =
     (let ds = takeWhile is_digit s; r1 = dropWhile is_digit s in
      if ds = [] then None
      else
        let fraction = (case r1 of
                          [] \<Rightarrow> []
                        | c # t \<Rightarrow> if c = 46 \<and> takeWhile is_digit t \<noteq> []
                                   then c # takeWhile is_digit t else []);
            r2 = drop (length fraction) r1;
            r3 = dropWhile is_space r2;
            letters = takeWhile is_alpha r3
        in if letters = [] then None else Some (ds @ fraction, letters))"

fun size_match :: "js_string \<Rightarrow> (js_string \<times> js_string) option" where
  "size_match [] = size_match_at []"
| "size_match (c # cs) =
     (case size_match_at (c # cs) of Some m \<Rightarrow> Some m | None \<Rightarrow> size_match cs)"

definition handleAddManualItem ::
  "('f, 'w) Env \<Rightarrow> js_string \<Rightarrow> js_string \<Rightarrow> js_string \<Rightarrow> 'w \<times> CartItem list
     \<Rightarrow> 'w \<times> CartItem list" where
  "handleAddManualItem env manualName manualPrice manualSize wp =
     (case wp of (w, prev) \<Rightarrow>
        if trim manualName = [] \<or> trim manualPrice = [] then (w, prev)
        else
          let normalizedPrice = replace_first_comma manualPrice;
              priceValue = parseFloat env normalizedPrice
          in if priceValue = NaN then (w, prev)
             else
               let m = (if trim manualSize \<noteq> [] then size_match manualSize else None);
                   mValue = (case m of None \<Rightarrow> None | Some (d, u) \<Rightarrow> Some (parseFloat env d));
                   mUnit = (case m of None \<Rightarrow> None | Some (d, u) \<Rightarrow> Some (toLowerCase env u));
                   (newId, w') = uuidv4 env w;
                   newItem = \<lparr>productName = trim manualName, price = priceValue,
                              category = Some (toLowerCase env (split_space_first manualName)),
                              measureValue = mValue, measureUnit = mUnit,
                              id_item = newId, quantity = 1\<rparr>
               in (w', newItem # prev))"

subsection \<open>Setting the budget (\<^verbatim>\<open>handleSetBudget\<close>)\<close>

text \<open>
  The form keeps the budget it had when the text does not parse, clears it on the empty
  text and stores every other value, \<open>0\<close> and the negative values included.
\<close>

definition handleSetBudget :: "('f, 'w) Env \<Rightarrow> js_string \<Rightarrow> number option \<Rightarrow> number option" where
  "handleSetBudget env tempBudget budget =
     (if tempBudget = [] then None
      else let val = parseFloat env (replace_first_comma tempBudget)
           in if val = NaN then budget else Some val)"

subsection \<open>Sequences of user actions\<close>

text \<open>
  One constructor for each handler that writes the cart. A row action names the row by
  its position in the rendered list; a position with no row is no action.
\<close>

datatype 'f action =
    FileChange "'f list"
  | AddManualItem js_string js_string js_string
  | Increment nat
  | Decrement nat
  | Remove nat
  | NameBlur nat js_string
  | ClearAll bool

definition on_row :: "nat \<Rightarrow> (CartItem \<Rightarrow> CartItem list \<Rightarrow> CartItem list) \<Rightarrow> AppState \<Rightarrow> AppState" where
  "on_row n handler st =
     (if n < length (items st) then st\<lparr>items := handler (items st ! n) (items st)\<rparr> else st)"

fun apply_action :: "('f, 'w) Env \<Rightarrow> 'f action \<Rightarrow> 'w \<times> AppState \<Rightarrow> 'w \<times> AppState" where
  "apply_action env (FileChange files) (w, st) = handleFileChange env files (w, st)"
| "apply_action env (AddManualItem n p s) (w, st) =
     (case handleAddManualItem env n p s (w, items st) of
        (w', its) \<Rightarrow> (w', st\<lparr>items := its\<rparr>))"
| "apply_action env (Increment n) (w, st) = (w, on_row n handleIncrement st)"
| "apply_action env (Decrement n) (w, st) = (w, on_row n handleDecrement st)"
| "apply_action env (Remove n) (w, st) =
     (w, on_row n (\<lambda>item. handleRemoveItem (id_item item)) st)"
| "apply_action env (NameBlur n tempName) (w, st) = (w, on_row n (handleNameBlur tempName) st)"
| "apply_action env (ClearAll confirmed) (w, st) =
     (w, st\<lparr>items := handleClearAll confirmed (items st)\<rparr>)"

definition initial_state :: AppState where
  "initial_state =
     \<lparr>items = [], status = \<lparr>isAnalyzing = False, error = None\<rparr>, analyzingProgress = None\<rparr>"

definition run_actions :: "('f, 'w) Env \<Rightarrow> 'f action list \<Rightarrow> 'w \<Rightarrow> 'w \<times> AppState" where
  "run_actions env acts w = fold (apply_action env) acts (w, initial_state)"

subsection \<open>Comparison engine (\<^verbatim>\<open>comparisonGroups\<close>, \<^verbatim>\<open>bestValueIds\<close>)\<close>

text \<open>
  \<^verbatim>\<open>Record<string, CartItem[]>\<close> is an association list with one pair for each own key.
  While the record is built the list is in the order in which the keys were first
  written; \<open>own_keys_order\<close> below gives the order in which the language lists them.
\<close>

type_synonym groups = "(js_string \<times> CartItem list) list"

text \<open>
  \<^verbatim>\<open>item.category ? item.category.toLowerCase().replace(/_/g, ' ') : 'outros'\<close>, with
  \<open>lower\<close> for \<^verbatim>\<open>toLowerCase\<close>.
\<close>

definition category_key :: "(js_string \<Rightarrow> js_string) \<Rightarrow> CartItem \<Rightarrow> js_string" where
  "category_key lower item =
     (if truthy_string (category item)
      then replace_underscores (lower (the (category item)))
      else ascii ''outros'')"

text \<open>\<^verbatim>\<open>item.measureValue && item.measureUnit\<close>\<close>

definition has_measure :: "CartItem \<Rightarrow> bool" where
  "has_measure item = (truthy_number (measureValue item) \<and> truthy_string (measureUnit item))"

text \<open>\<^verbatim>\<open>if (!grouped[cat]) grouped[cat] = []; grouped[cat].push(item);\<close> for an own key.\<close>

fun group_push :: "js_string \<Rightarrow> CartItem \<Rightarrow> groups \<Rightarrow> groups" where
  "group_push cat item [] = [(cat, [item])]"
| "group_push cat item ((key, g) # rest) =
     (if key = cat then (key, g @ [item]) # rest else (key, g) # group_push cat item rest)"

text \<open>
  \<open>grouped\<close> starts as the object literal \<^verbatim>\<open>{}\<close>, so a read of a key it does not own is
  answered by \<^verbatim>\<open>Object.prototype\<close>. For each property name of \<^verbatim>\<open>Object.prototype\<close> the
  value of \<^verbatim>\<open>grouped[cat]\<close> is a function or an object, which is truthy, so no array is
  stored, and which has no \<^verbatim>\<open>push\<close>, so the call throws a \<^verbatim>\<open>TypeError\<close>. Of these names
  only \<^verbatim>\<open>constructor\<close> has neither a capital letter nor an underscore.
\<close>

definition inherited_keys :: "js_string list" where
  "inherited_keys =
     map ascii [''constructor'', ''hasOwnProperty'', ''isPrototypeOf'', ''propertyIsEnumerable'',
       ''toLocaleString'', ''toString'', ''valueOf'', ''__defineGetter__'', ''__defineSetter__'',
       ''__lookupGetter__'', ''__lookupSetter__'', ''__proto__'']"

text \<open>The \<^verbatim>\<open>forEach\<close> over the entries.\<close>

fun group_items ::
  "(js_string \<Rightarrow> js_string) \<Rightarrow> CartItem list \<Rightarrow> groups \<Rightarrow> js_error + groups" where
  "group_items lower [] grouped = Inr grouped"
| "group_items lower (item # rest) grouped =
     (let cat = category_key lower item in
      if has_measure item
      then (if cat \<in> set inherited_keys then Inl TypeError
            else group_items lower rest (group_push cat item grouped))
      else group_items lower rest grouped)"

definition getBasePrice :: "CartItem \<Rightarrow> number" where
  "getBasePrice i =
     (let val0 = (if truthy_number (measureValue i) then the (measureValue i) else Finite 1);
          val1 = (if measureUnit i = Some (ascii ''kg'') then num_mul val0 (Finite 1000) else val0);
          val2 = (if measureUnit i = Some (ascii ''l'') then num_mul val1 (Finite 1000) else val1)
      in num_div (price i) val2)"

text \<open>The comparator handed to \<^verbatim>\<open>sort\<close>.\<close>

definition compare_base_price :: "CartItem \<Rightarrow> CartItem \<Rightarrow> number" where
  "compare_base_price a b = num_sub (getBasePrice a) (getBasePrice b)"

text \<open>
  \<^verbatim>\<open>Array.prototype.sort\<close> with a comparator. The language reads a result of \<^verbatim>\<open>NaN\<close> as
  \<open>0\<close> and puts \<open>a\<close> after \<open>b\<close> when the result is above \<open>0\<close>. It requires the sort to be
  stable, and for a comparator that is a consistent order the result is the one stable
  arrangement of the array in that order; a stable insertion sort computes it. For a
  comparator that is not consistent the language leaves the order open, and the
  insertion sort is one of the orders allowed.
\<close>

definition sort_compare :: "number \<Rightarrow> number" where
  "sort_compare v = (if v = NaN then Finite 0 else v)"

fun insert_by :: "('a \<Rightarrow> 'a \<Rightarrow> number) \<Rightarrow> 'a \<Rightarrow> 'a list \<Rightarrow> 'a list" where
  "insert_by cmp x [] = [x]"
| "insert_by cmp x (y # ys) =
     (if num_gt (sort_compare (cmp x y)) (Finite 0) then y # insert_by cmp x ys
      else x # y # ys)"

definition sort_by :: "('a \<Rightarrow> 'a \<Rightarrow> number) \<Rightarrow> 'a list \<Rightarrow> 'a list" where
  "sort_by cmp xs = foldr (insert_by cmp) xs []"

text \<open>
  The order in which \<^verbatim>\<open>Object.keys\<close>, \<^verbatim>\<open>Object.values\<close> and \<^verbatim>\<open>Object.entries\<close> list the
  own keys: first the keys that are array indices (the decimal numerals below
  \<open>2\<^sup>3\<^sup>2 - 1\<close> without leading zero), by value, then the other keys in the order in which
  they were written.
\<close>

definition array_index :: "js_string \<Rightarrow> nat option" where
  "array_index s =
     (if s \<noteq> [] \<and> list_all is_digit s \<and> (length s = 1 \<or> hd s \<noteq> 48)
         \<and> digits_value s < 4294967295
      then Some (digits_value s) else None)"

definition own_keys_order :: "groups \<Rightarrow> groups" where
  "own_keys_order G =
     sort_key (\<lambda>kg. the (array_index (fst kg))) (filter (\<lambda>kg. array_index (fst kg) \<noteq> None) G)
       @ filter (\<lambda>kg. array_index (fst kg) = None) G"

definition comparisonGroups ::
  "(js_string \<Rightarrow> js_string) \<Rightarrow> CartItem list \<Rightarrow> js_error + groups" where
  "comparisonGroups lower its =
     (case group_items lower its [] of
        Inl e \<Rightarrow> Inl e
      | Inr grouped \<Rightarrow>
          Inr (own_keys_order (map (\<lambda>(key, g). (key, sort_by compare_base_price g)) grouped)))"


subsection \<open>The comparison rules in words\<close>

text \<open>
  The measure value of an entry, and \<open>1\<close> in its place when the entry has none (or has
  \<open>0\<close> or \<^verbatim>\<open>NaN\<close>).
\<close>

definition measure_or_one :: "CartItem \<Rightarrow> number" where
  "measure_or_one i =
     (case measureValue i of
        None \<Rightarrow> Finite 1
      | Some v \<Rightarrow> if v = NaN \<or> v = Finite 0 then Finite 1 else v)"

text \<open>
  The normalised measure: that value, times \<open>1000\<close> exactly when the unit is the large
  variant of mass or volume.
\<close>

definition normalized_measure :: "CartItem \<Rightarrow> number" where
  "normalized_measure i =
     (if measureUnit i = Some (ascii ''kg'') \<or> measureUnit i = Some (ascii ''l'')
      then num_mul (measure_or_one i) (Finite 1000) else measure_or_one i)"

definition unit_price :: "CartItem \<Rightarrow> number" where
  "unit_price i = num_div (price i) (normalized_measure i)"


text \<open>The entries of a list that belong to the group of a key, in the order of the list.\<close>

definition members_of :: "(js_string \<Rightarrow> js_string) \<Rightarrow> js_string \<Rightarrow> CartItem list \<Rightarrow> CartItem list" where
  "members_of lower key its = filter (\<lambda>i. has_measure i \<and> category_key lower i = key) its"

subsection \<open>Auxiliary notions for the statements\<close>

text \<open>The cart after a sequence of actions, started on the empty cart.\<close>

definition cart_after :: "('f, 'w) Env \<Rightarrow> 'f action list \<Rightarrow> 'w \<Rightarrow> CartItem list" where
  "cart_after env acts w = items (snd (run_actions env acts w))"

definition quantities_ok :: "CartItem list \<Rightarrow> bool" where
  "quantities_ok its = (\<forall>item \<in> set its. quantity item \<ge> 1)"

text \<open>
  What a group of the record holds after more entries have been pushed: the entries it
  had, followed by the new members; a key with no entry is not a key of the record.
\<close>

definition joined :: "CartItem list option \<Rightarrow> CartItem list \<Rightarrow> CartItem list option" where
  "joined old new =
     (case old of None \<Rightarrow> (if new = [] then None else Some new) | Some g \<Rightarrow> Some (g @ new))"


text \<open>The finite doubles are multiples of \<open>2\<^sup>-\<^sup>1\<^sup>0\<^sup>7\<^sup>4\<close>.\<close>

definition on_grid :: "rat \<Rightarrow> bool" where
  "on_grid r = (\<exists>k :: int. r = of_int k * pow2 (- 1074))"

text \<open>A result of the arithmetic that is a number: a multiple of the step, or an infinity.\<close>

definition rounded :: "number \<Rightarrow> bool" where
  "rounded a = (case a of Finite x \<Rightarrow> on_grid x | NaN \<Rightarrow> False | _ \<Rightarrow> True)"

text \<open>
  The batch as a list of outcomes, one for each file in the order of the files: the files
  are analysed one after the other, each in the world the previous ones left, and a
  success draws the identifier of its entry.
\<close>

fun analyse_all :: "('f, 'w) Env \<Rightarrow> 'f list \<Rightarrow> 'w \<Rightarrow> (js_error + CartItem) list \<times> 'w" where
  "analyse_all env [] w = ([], w)"
| "analyse_all env (file # rest) w =
     (case analyzeProductImage env file w of
        (Inl e, w1) \<Rightarrow>
          (case analyse_all env rest w1 of (outcomes, w') \<Rightarrow> (Inl e # outcomes, w'))
      | (Inr result, w1) \<Rightarrow>
          (case uuidv4 env w1 of (newId, w2) \<Rightarrow>
             (case analyse_all env rest w2 of
                (outcomes, w') \<Rightarrow> (Inr (newItem_of_result newId result) # outcomes, w'))))"

definition successes :: "(js_error + CartItem) list \<Rightarrow> CartItem list" where
  "successes outcomes =
     concat (map (\<lambda>r. case r of Inl e \<Rightarrow> [] | Inr item \<Rightarrow> [item]) outcomes)"

definition aggregate_error :: "(js_error + CartItem) list \<Rightarrow> js_string option" where
  "aggregate_error outcomes = (if list_ex isl outcomes then Some batch_error_message else None)"

subsection \<open>Example data\<close>

text \<open>
  \<^verbatim>\<open>toLowerCase\<close> on the texts of ASCII characters, where it turns the letters \<^verbatim>\<open>A\<close> to
  \<^verbatim>\<open>Z\<close> into \<^verbatim>\<open>a\<close> to \<^verbatim>\<open>z\<close> and keeps every other character. The examples apply it to
  such texts only.
\<close>

definition lower_ascii :: "js_string \<Rightarrow> js_string" where
  "lower_ascii s = map (\<lambda>c. if 65 \<le> c \<and> c \<le> 90 then c + 32 else c) s"

text \<open>
  \<^verbatim>\<open>parseFloat\<close> on the texts the examples hand to it, each with the double it denotes;
  the examples hand it no other text.
\<close>

definition example_parseFloat :: "js_string \<Rightarrow> number" where
  "example_parseFloat s =
     (if s = ascii ''0'' then Finite 0
      else if s = ascii ''4.5'' then Finite (9 / 2)
      else if s = ascii ''10'' then Finite 10
      else if s = ascii ''90'' then Finite 90
      else if s = ascii ''500'' then Finite 500
      else NaN)"

definition rice_A :: CartItem where
  "rice_A = \<lparr>productName = ascii ''A'', price = Finite 10, category = Some (ascii ''rice''),
     measureValue = Some (Finite 500), measureUnit = Some (ascii ''g''),
     id_item = ascii ''id-a'', quantity = 1\<rparr>"

definition rice_B :: CartItem where
  "rice_B = \<lparr>productName = ascii ''B'', price = Finite 22, category = Some (ascii ''rice''),
     measureValue = Some (Finite 1), measureUnit = Some (ascii ''kg''),
     id_item = ascii ''id-b'', quantity = 1\<rparr>"

definition rice_upper :: CartItem where
  "rice_upper = \<lparr>productName = ascii ''E'', price = Finite 12, category = Some (ascii ''Rice''),
     measureValue = Some (Finite 500), measureUnit = Some (ascii ''g''),
     id_item = ascii ''id-e'', quantity = 1\<rparr>"

definition milk_C :: CartItem where
  "milk_C = \<lparr>productName = ascii ''C'', price = Finite 5,
     category = Some (ascii ''Leite_Integral''),
     measureValue = Some (Finite 1), measureUnit = Some (ascii ''l''),
     id_item = ascii ''id-c'', quantity = 2\<rparr>"

definition bread_D :: CartItem where
  "bread_D = \<lparr>productName = ascii ''D'', price = Finite 7, category = Some (ascii ''bread''),
     measureValue = None, measureUnit = None, id_item = ascii ''id-d'', quantity = 1\<rparr>"

definition toothpaste :: CartItem where
  "toothpaste = \<lparr>productName = ascii ''Creme Dental'', price = Finite 4,
     category = Some (ascii ''creme_dental''),
     measureValue = Some (Finite 90), measureUnit = Some (ascii ''g''),
     id_item = ascii ''id-t'', quantity = 1\<rparr>"


text \<open>
  Two packages of the same price, one of \<^verbatim>\<open>1.005\<close> \<^verbatim>\<open>kg\<close> and one of \<open>1005\<close> \<^verbatim>\<open>g\<close>. The
  measure value of the first is the double nearest to \<open>1.005\<close>.
\<close>

definition pack_kg :: CartItem where
  "pack_kg = \<lparr>productName = ascii ''K'', price = Finite 10, category = Some (ascii ''rice''),
     measureValue = Some (round_double (201 / 200)), measureUnit = Some (ascii ''kg''),
     id_item = ascii ''id-k'', quantity = 1\<rparr>"

definition pack_g :: CartItem where
  "pack_g = \<lparr>productName = ascii ''G'', price = Finite 10, category = Some (ascii ''rice''),
     measureValue = Some (Finite 1005), measureUnit = Some (ascii ''g''),
     id_item = ascii ''id-g'', quantity = 1\<rparr>"

text \<open>
  Two packages of the same price, one of \<^verbatim>\<open>0.3\<close> \<^verbatim>\<open>kg\<close> and one of \<open>300\<close> \<^verbatim>\<open>g\<close>, and a cart of
  two entries priced \<^verbatim>\<open>0.1\<close> and \<^verbatim>\<open>0.2\<close>; the numbers are the doubles nearest to these.
\<close>

definition pack_03 :: CartItem where
  "pack_03 = \<lparr>productName = ascii ''H'', price = Finite 10, category = Some (ascii ''rice''),
     measureValue = Some (round_double (3 / 10)), measureUnit = Some (ascii ''kg''),
     id_item = ascii ''id-h'', quantity = 1\<rparr>"

definition pack_300 :: CartItem where
  "pack_300 = \<lparr>productName = ascii ''I'', price = Finite 10, category = Some (ascii ''rice''),
     measureValue = Some (Finite 300), measureUnit = Some (ascii ''g''),
     id_item = ascii ''id-i'', quantity = 1\<rparr>"

definition cents_cart :: "CartItem list" where
  "cents_cart =
     [\<lparr>productName = ascii ''J'', price = round_double (1 / 10), category = None,
       measureValue = None, measureUnit = None, id_item = ascii ''id-j'', quantity = 1\<rparr>,
      \<lparr>productName = ascii ''L'', price = round_double (1 / 5), category = None,
       measureValue = None, measureUnit = None, id_item = ascii ''id-l'', quantity = 1\<rparr>]"

definition example_cart :: "CartItem list" where
  "example_cart = [rice_B, bread_D, milk_C, rice_A]"

definition example_groups :: groups where
  "example_groups =
     [(ascii ''rice'', [rice_A, rice_B]), (ascii ''leite integral'', [milk_C])]"

definition cart60 :: "CartItem list" where
  "cart60 =
     [\<lparr>productName = ascii ''Arroz'', price = Finite 10, category = Some (ascii ''arroz''),
       measureValue = Some (Finite 500), measureUnit = Some (ascii ''g''),
       id_item = [], quantity = 6\<rparr>]"

definition example_scan :: ScannedItem where
  "example_scan = \<lparr>productName = ascii ''Arroz'', price = Finite 10,
     category = Some (ascii ''arroz''),
     measureValue = Some (Finite 500), measureUnit = Some (ascii ''g'')\<rparr>"

text \<open>
  An environment over files and worlds that are numbers: file \<open>1\<close> cannot be read, every
  call of the model answers, and the identifier drawn in world \<open>w\<close> is \<open>w\<close> letters long.
\<close>

definition example_env :: "(nat, nat) Env" where
  "example_env =
     \<lparr>apiKey = ascii ''key'',
      file_type = (\<lambda>f. ascii ''image/png''),
      fileToBase64 = (\<lambda>f w. (if f = 1 then Inl ReaderFailed else Inr (ascii ''data''), w)),
      generateContent = (\<lambda>mime d w. (Inr (Some (ascii ''{}'')), Suc w)),
      JSON_parse = (\<lambda>t. Inr example_scan),
      uuidv4 = (\<lambda>w. (replicate w 117, Suc w)),
      parseFloat = example_parseFloat,
      toLowerCase = lower_ascii\<rparr>"

definition milk :: CartItem where
  "milk = \<lparr>productName = ascii ''Milk'', price = Finite (9 / 2), category = Some (ascii ''milk''),
     measureValue = None, measureUnit = None, id_item = [], quantity = 1\<rparr>"

definition example_actions :: "nat action list" where
  "example_actions =
     [AddManualItem (ascii ''Arroz'') (ascii ''10'') (ascii ''500 g''), Increment 0, Increment 0,
      Increment 0, Increment 0, Increment 0]"

definition example_session :: "nat action list" where
  "example_session =
     [AddManualItem (ascii ''Milk'') (ascii ''4.5'') [], Increment 0, FileChange [0, 1, 2],
      Decrement 0, Decrement 2, Remove 5, NameBlur 0 (ascii ''Arroz Branco''), ClearAll False]"

subsection \<open>The manual form in the words of the claim\<close>

text \<open>The first word of a text: its characters up to the first white space.\<close>

definition first_word :: "js_string \<Rightarrow> js_string" where
  "first_word s = takeWhile (\<lambda>c. \<not> is_space c) s"

text \<open>
  A name as it is usually typed: it starts with a character that is not white space, and
  spaces are the only white space in it.
\<close>

definition plain_name :: "js_string \<Rightarrow> bool" where
  "plain_name s =
     (s \<noteq> [] \<and> \<not> is_space (hd s) \<and> (\<forall>c \<in> set s. is_space c \<longrightarrow> c = 32))"

definition zero_size_item :: CartItem where
  "zero_size_item = \<lparr>productName = ascii ''Arroz Branco'', price = Finite 10,
     category = Some (ascii ''arroz''),
     measureValue = Some (Finite 0), measureUnit = Some (ascii ''g''),
     id_item = [], quantity = 1\<rparr>"

definition manual_item :: CartItem where
  "manual_item = \<lparr>productName = ascii ''Pasta_Dente Extra'', price = Finite 10,
     category = Some (ascii ''pasta_dente''),
     measureValue = Some (Finite 90), measureUnit = Some (ascii ''g''),
     id_item = [], quantity = 1\<rparr>"

subsection \<open>Sharing the list (\<^verbatim>\<open>handleShareList\<close>)\<close>

text \<open>
  \<open>formatCurrency\<close> is the \<^verbatim>\<open>format\<close> method of
  \<^verbatim>\<open>Intl.NumberFormat('pt-BR', { style: 'currency', currency: 'BRL' })\<close>, a function of
  the platform: the functions below take it as a parameter. A quantity in a template
  literal is printed in decimal.
\<close>

definition newline :: nat where
  "newline = 10"

definition digit_char :: "nat \<Rightarrow> nat" where
  "digit_char d = 48 + d"

fun show_nat :: "nat \<Rightarrow> js_string" where
  "show_nat n = (if n < 10 then [digit_char n] else show_nat (n div 10) @ [digit_char (n mod 10)])"

declare show_nat.simps [simp del]

definition show_int :: "int \<Rightarrow> js_string" where
  "show_int q = (if q < 0 then 45 # show_nat (nat (- q)) else show_nat (nat q))"

text \<open>\<^verbatim>\<open>lines.join('\n')\<close>\<close>

fun join_lines :: "js_string list \<Rightarrow> js_string" where
  "join_lines [] = []"
| "join_lines [l] = l"
| "join_lines (l # ls) = l @ newline # join_lines ls"

text \<open>
  The two pictographs of the text (a shopping cart and a money bag), each a pair of
  surrogate code units.
\<close>

definition cart_emoji :: js_string where
  "cart_emoji = [55357, 57042]"

definition money_emoji :: js_string where
  "money_emoji = [55357, 56496]"

definition share_line :: "(number \<Rightarrow> js_string) \<Rightarrow> CartItem \<Rightarrow> js_string" where
  "share_line formatCurrency item =
     show_int (quantity item) @ ascii ''x '' @ productName item @ ascii '' - ''
       @ formatCurrency (num_mul (price item) (num_of_int (quantity item)))"

definition share_header :: js_string where
  "share_header = cart_emoji @ ascii '' *Lista SmartCart*''"

definition total_prefix :: js_string where
  "total_prefix = money_emoji @ ascii '' *Total: ''"

definition shareText :: "(number \<Rightarrow> js_string) \<Rightarrow> CartItem list \<Rightarrow> js_string" where
  "shareText formatCurrency its =
     share_header @ [newline, newline] @ join_lines (map (share_line formatCurrency) its)
       @ [newline, newline] @ total_prefix @ formatCurrency (totalCost its) @ ascii ''*''"

text \<open>
  The handler returns at once on the empty cart; otherwise it hands the text to the share
  sheet or to the clipboard. The result is the text handed over.
\<close>

definition handleShareList :: "(number \<Rightarrow> js_string) \<Rightarrow> CartItem list \<Rightarrow> js_string option" where
  "handleShareList formatCurrency its =
     (if its = [] then None else Some (shareText formatCurrency its))"

subsection \<open>Reading the shared text back\<close>

text \<open>
  Modelled from the spec: the reader of the shared text that the round-trip property
  speaks of; the repository has no function that reads the text. \<open>split_lines\<close> cuts a
  text at its line breaks.
\<close>

fun cons_first :: "nat \<Rightarrow> js_string list \<Rightarrow> js_string list" where
  "cons_first c [] = [[c]]"
| "cons_first c (l # ls) = (c # l) # ls"

fun split_lines :: "js_string \<Rightarrow> js_string list" where
  "split_lines [] = [[]]"
| "split_lines (c # cs) =
     (if c = newline then [] # split_lines cs else cons_first c (split_lines cs))"

text \<open>
  Modelled from the spec: the item lines of the shared text are its lines between the
  heading with the empty line after it and the empty line before the final total line.
\<close>

definition item_lines :: "js_string \<Rightarrow> js_string list" where
  "item_lines shared = (let ls = split_lines shared in take (length ls - 4) (drop 2 ls))"

text \<open>Modelled from the spec: the leading quantity of an item line, its first run of digits.\<close>

definition leading_quantity :: "js_string \<Rightarrow> nat" where
  "leading_quantity line = digits_value (takeWhile is_digit line)"

text \<open>Modelled from the spec: the item count read back, the sum of the leading quantities.\<close>

definition parsed_item_count :: "js_string \<Rightarrow> nat" where
  "parsed_item_count shared = sum_list (map leading_quantity (item_lines shared))"

text \<open>
  Modelled from the spec: the total read back, the text of the final line between the
  label and the closing asterisk.
\<close>

definition parsed_total :: "js_string \<Rightarrow> js_string" where
  "parsed_total shared = butlast (drop (length total_prefix) (last (split_lines shared)))"

subsection \<open>Example data for the shared text\<close>

text \<open>
  A formatter in the style of the locale for the examples: the amount rounded to cents,
  half away from zero, the currency sign and a no-break space, dots between the
  thousands and a comma before the cents.
\<close>

fun group_thousands :: "js_string \<Rightarrow> js_string" where
  "group_thousands ds =
     (if length ds \<le> 3 then ds
      else group_thousands (take (length ds - 3) ds) @ 46 # drop (length ds - 3) ds)"

declare group_thousands.simps [simp del]

definition format_brl :: "number \<Rightarrow> js_string" where
  "format_brl a =
     (case a of
        Finite x \<Rightarrow>
          (let cents = nat \<lfloor>\<bar>x\<bar> * 100 + 1 / 2\<rfloor>;
               frac = cents mod 100
           in (if x < 0 then [45] else []) @ ascii ''R$'' @ [160]
                @ group_thousands (show_nat (cents div 100)) @ [44]
                @ [digit_char (frac div 10), digit_char (frac mod 10)])
      | NaN \<Rightarrow> ascii ''R$'' @ [160] @ ascii ''NaN''
      | PosInfinity \<Rightarrow> ascii ''R$'' @ [160, 8734]
      | NegInfinity \<Rightarrow> 45 # ascii ''R$'' @ [160, 8734])"

definition tricky_cart :: "CartItem list" where
  "tricky_cart =
     [\<lparr>productName = ascii ''A - '' @ format_brl (Finite 0) @ [newline] @ ascii ''5x B'',
       price = Finite 5, category = None, measureValue = None, measureUnit = None,
       id_item = ascii ''id-1'', quantity = 1\<rparr>]"

definition plain_cart :: "CartItem list" where
  "plain_cart =
     [\<lparr>productName = ascii ''A'', price = Finite 0, category = None, measureValue = None,
       measureUnit = None, id_item = ascii ''id-1'', quantity = 1\<rparr>,
      \<lparr>productName = ascii ''B'', price = Finite 1, category = None, measureValue = None,
       measureUnit = None, id_item = ascii ''id-2'', quantity = 5\<rparr>]"

section \<open>Properties\<close>

subsection \<open>The arithmetic of doubles\<close>

lemma double_overflow_code [code]:
  "double_overflow = 179769313486231590772930519078902473361797697894230657273430081157732675805500963132708477322407536021120113879871393357658789768814416622492847430639474124377767893424865485276302219601246094119453082952085005768838150682342462881473913110540827237163350510684586298239947245938479716304835356329624224137216"
  by (simp add: double_overflow_def pow2_def)

text \<open>Powers of two, and the exponent of a positive rational.\<close>

lemma pow2_pos [simp]: "pow2 k > 0"
  by (simp add: pow2_def)

lemma pow2_nonneg [simp]: "pow2 k \<ge> 0"
  by (simp add: pow2_def)

lemma pow2_neq0 [simp]: "pow2 k \<noteq> 0"
  by (simp add: pow2_def)

lemma pow2_diff: "pow2 (a - b) = pow2 a / pow2 b"
  by (simp add: pow2_def power_int_diff)

lemma pow2_mono: "a \<le> b \<Longrightarrow> pow2 a \<le> pow2 b"
  by (simp add: pow2_def power_int_increasing)

lemma pow2_nat: "k \<ge> 0 \<Longrightarrow> pow2 k = 2 ^ nat k"
  by (simp add: pow2_def power_int_def)

lemma bitlen_bounds_rat:
  assumes "p > 0"
  shows "pow2 (bitlen p - 1) \<le> of_int p" and "of_int p < pow2 (bitlen p)"
proof -
  from assms have b: "bitlen p \<ge> 1" by (simp add: bitlen_alt_def)
  from bitlen_bounds[OF assms] have "2 ^ nat (bitlen p - 1) \<le> p" and "p < 2 ^ nat (bitlen p)"
    by simp_all
  then have "(of_int (2 ^ nat (bitlen p - 1)) :: rat) \<le> of_int p"
    and "(of_int p :: rat) < of_int (2 ^ nat (bitlen p))"
    by (simp_all only: of_int_le_iff of_int_less_iff)
  then show "pow2 (bitlen p - 1) \<le> of_int p" and "of_int p < pow2 (bitlen p)"
    using b by (simp_all add: pow2_nat)
qed

lemma ilog2_bounds:
  assumes "x > 0"
  shows "pow2 (ilog2 x) \<le> x" and "x < pow2 (ilog2 x + 1)"
proof -
  obtain p q where pq: "quotient_of x = (p, q)" by (cases "quotient_of x")
  then have q: "q > 0" and x: "x = of_int p / of_int q"
    using quotient_of_denom_pos[OF pq] quotient_of_div[OF pq] by simp_all
  from assms x q have p: "p > 0" by (simp add: zero_less_divide_iff)
  let ?d = "bitlen p - bitlen q"
  note P = bitlen_bounds_rat[OF p] and Q = bitlen_bounds_rat[OF q]
  have qr: "(of_int q :: rat) > 0" and pr: "(of_int p :: rat) > 0" using p q by simp_all
  have lo: "pow2 (?d - 1) \<le> x"
  proof -
    have "pow2 (?d - 1) = pow2 (bitlen p - 1) / pow2 (bitlen q)"
      using pow2_diff[of "bitlen p - 1" "bitlen q"] by (simp add: algebra_simps)
    also have "\<dots> \<le> of_int p / pow2 (bitlen q)"
      using P(1) by (intro divide_right_mono) simp_all
    also have "\<dots> \<le> of_int p / of_int q"
      using Q(2) qr pr by (intro divide_left_mono) simp_all
    finally show ?thesis by (simp add: x)
  qed
  have hi: "x < pow2 (?d + 1)"
  proof -
    have "x = of_int p / of_int q" by (rule x)
    also have "\<dots> < pow2 (bitlen p) / of_int q"
      using P(2) qr by (intro divide_strict_right_mono) simp_all
    also have "\<dots> \<le> pow2 (bitlen p) / pow2 (bitlen q - 1)"
      using Q(1) qr by (intro divide_left_mono) simp_all
    also have "\<dots> = pow2 (?d + 1)"
      using pow2_diff[of "bitlen p" "bitlen q - 1"] by (simp add: algebra_simps)
    finally show ?thesis .
  qed
  show "pow2 (ilog2 x) \<le> x"
    using lo by (simp add: ilog2_def pq Let_def)
  show "x < pow2 (ilog2 x + 1)"
    using hi by (auto simp: ilog2_def pq Let_def not_le)
qed

text \<open>
  Rounding to the nearest integer keeps the sign of a value of magnitude at least \<open>1\<close>.
\<close>

lemma round_half_even_cases:
  "round_half_even y = \<lfloor>y\<rfloor> \<or> round_half_even y = \<lfloor>y\<rfloor> + 1"
  by (simp add: round_half_even_def Let_def)

lemma round_half_even_pos: "y \<ge> 1 \<Longrightarrow> round_half_even y \<ge> 1"
  by (auto simp: round_half_even_def Let_def le_floor_iff)

lemma round_half_even_neg:
  assumes "y \<le> - 1"
  shows "round_half_even y \<le> - 1"
proof -
  have fy: "of_int \<lfloor>y\<rfloor> \<le> y" by simp
  from assms have f: "\<lfloor>y\<rfloor> \<le> - 1" by (simp add: floor_le_iff)
  show ?thesis
  proof (cases "\<lfloor>y\<rfloor> = - 1")
    case True
    with fy assms have "y - of_int \<lfloor>y\<rfloor> = 0" by simp
    then show ?thesis using True by (simp add: round_half_even_def Let_def)
  next
    case False
    with f have "\<lfloor>y\<rfloor> \<le> - 2" by linarith
    then show ?thesis using round_half_even_cases[of y] by linarith
  qed
qed

text \<open>
  The multiples of \<open>2\<^sup>-\<^sup>1\<^sup>0\<^sup>7\<^sup>4\<close> are closed under subtraction, and such a multiple other
  than \<open>0\<close> is at least one unit in the last place of its own binade. So the rounded
  difference of two doubles has the sign of their exact difference: with gradual
  underflow \<^verbatim>\<open>a - b\<close> is \<open>0\<close> only when \<open>a = b\<close>.
\<close>

lemma on_grid_diff:
  assumes "on_grid a" and "on_grid b"
  shows "on_grid (a - b)"
proof -
  from assms obtain k l :: int
    where "a = of_int k * pow2 (- 1074)" "b = of_int l * pow2 (- 1074)"
    unfolding on_grid_def by blast
  then have "a - b = of_int (k - l) * pow2 (- 1074)" by (simp add: algebra_simps)
  then show ?thesis unfolding on_grid_def by blast
qed

lemma on_grid_zero: "on_grid 0"
  unfolding on_grid_def by (rule exI[of _ 0]) simp

lemma ulp_quotient:
  assumes "x > 0" and "on_grid x"
  shows "x / pow2 (max (ilog2 x) (- 1022) - 52) \<ge> 1"
proof (cases "ilog2 x \<ge> - 1022")
  case True
  then have m: "max (ilog2 x) (- 1022) = ilog2 x" by simp
  have "pow2 (ilog2 x - 52) \<le> pow2 (ilog2 x)"
    by (rule pow2_mono) simp
  also have "\<dots> \<le> x" by (rule ilog2_bounds(1)[OF assms(1)])
  finally show ?thesis by (simp add: m le_divide_eq)
next
  case False
  then have m: "max (ilog2 x) (- 1022) - 52 = - 1074" by simp
  from assms(2) obtain k :: int where k: "x = of_int k * pow2 (- 1074)"
    by (auto simp: on_grid_def)
  have "(0::rat) < of_int k"
    using assms(1) pow2_pos[of "- 1074"] unfolding k by (rule zero_less_mult_pos2)
  then have "k > 0" by simp
  then have "(1::rat) \<le> of_int k" by simp
  moreover have "x / pow2 (- 1074) = of_int k" by (simp add: k)
  ultimately show ?thesis by (simp only: m)
qed

lemma round_double_pos:
  assumes "x > 0" and "on_grid x"
  shows "round_double x = PosInfinity \<or> (\<exists>r > 0. round_double x = Finite r)"
proof -
  let ?ulp = "pow2 (max (ilog2 x) (- 1022) - 52)"
  from round_half_even_pos[OF ulp_quotient[OF assms]]
  have "of_int (round_half_even (x / ?ulp)) * ?ulp > 0"
    by (simp add: zero_less_mult_iff)
  moreover have "\<bar>x\<bar> = x" using assms(1) by simp
  ultimately show ?thesis
    using assms(1) by (auto simp: round_double_def Let_def)
qed

lemma on_grid_uminus: "on_grid x \<Longrightarrow> on_grid (- x)"
  using on_grid_diff[OF on_grid_zero, of x] by simp

lemma round_double_neg:
  assumes "x < 0" and "on_grid x"
  shows "round_double x = NegInfinity \<or> (\<exists>r < 0. round_double x = Finite r)"
proof -
  let ?ulp = "pow2 (max (ilog2 (- x)) (- 1022) - 52)"
  from assms have "- x > 0" and "on_grid (- x)" by (simp_all add: on_grid_uminus)
  from ulp_quotient[OF this] have "x / ?ulp \<le> - 1" by simp
  from round_half_even_neg[OF this]
  have r: "of_int (round_half_even (x / ?ulp)) * ?ulp < 0"
    by (simp add: mult_less_0_iff)
  moreover have "\<bar>x\<bar> = - x" using assms(1) by simp
  moreover have "\<not> double_overflow \<le> of_int (round_half_even (x / ?ulp)) * ?ulp"
    using r pow2_pos[of 1024] unfolding double_overflow_def by linarith
  ultimately show ?thesis
    using assms(1) by (auto simp: round_double_def Let_def)
qed

text \<open>Every finite result of the rounding is a multiple of \<open>2\<^sup>-\<^sup>1\<^sup>0\<^sup>7\<^sup>4\<close>.\<close>

lemma round_double_grid: "round_double x = Finite r \<Longrightarrow> on_grid r"
proof -
  assume a: "round_double x = Finite r"
  show ?thesis
  proof (cases "x = 0")
    case True
    with a show ?thesis by (simp add: round_double_def on_grid_zero)
  next
    case False
    let ?e = "max (ilog2 \<bar>x\<bar>) (- 1022)"
    let ?n = "round_half_even (x / pow2 (?e - 52))"
    from a False have r: "r = of_int ?n * pow2 (?e - 52)"
      by (auto simp: round_double_def Let_def split: if_splits)
    have e: "?e - 52 + 1074 \<ge> 0" by simp
    have "pow2 (?e - 52) = pow2 (?e - 52 + 1074) * pow2 (- 1074)"
      using pow2_diff[of "?e - 52" "- 1074"] pow2_pos[of "- 1074"]
      by (simp add: field_simps)
    also have "pow2 (?e - 52 + 1074) = of_int (2 ^ nat (?e - 52 + 1074))"
      using e by (simp add: pow2_nat)
    finally have "r = of_int (?n * 2 ^ nat (?e - 52 + 1074)) * pow2 (- 1074)"
      by (simp add: r)
    then show ?thesis unfolding on_grid_def by blast
  qed
qed

lemma round_double_not_NaN [simp]: "round_double x \<noteq> NaN"
  by (simp add: round_double_def Let_def)

lemma round_double_rounded: "rounded (round_double x)"
  using round_double_grid[of x] by (cases "round_double x") (simp_all add: rounded_def)

lemma round_double_zero_iff:
  assumes "on_grid x"
  shows "round_double x = Finite 0 \<longleftrightarrow> x = 0"
proof
  assume z: "round_double x = Finite 0"
  show "x = 0"
  proof (rule ccontr)
    assume "x \<noteq> 0"
    then consider "x > 0" | "x < 0" by linarith
    then show False
      using round_double_pos[OF _ assms] round_double_neg[OF _ assms] z by cases auto
  qed
next
  assume "x = 0"
  then show "round_double x = Finite 0" by (simp add: round_double_def)
qed



lemma rounded_not_NaN: "rounded a \<Longrightarrow> a \<noteq> NaN"
  by (auto simp: rounded_def)




lemma num_mul_rounded: "num_mul a b \<noteq> NaN \<Longrightarrow> rounded (num_mul a b)"
  using round_double_rounded
  by (cases a; cases b) (auto simp: num_mul_def rounded_def split: if_splits)

lemma on_grid_mult_int: "on_grid x \<Longrightarrow> on_grid (x * of_int m)"
proof -
  assume "on_grid x"
  then obtain k :: int where "x = of_int k * pow2 (- 1074)" by (auto simp: on_grid_def)
  then have "x * of_int m = of_int (k * m) * pow2 (- 1074)" by simp
  then show ?thesis unfolding on_grid_def by blast
qed

lemma num_mul_1000_truthy:
  assumes "truthy a" and "rounded a"
  shows "truthy (num_mul a (Finite 1000))"
proof (cases a)
  case (Finite x)
  with assms have x: "x \<noteq> 0" and g: "on_grid x" by (simp_all add: truthy_def rounded_def)
  from on_grid_mult_int[OF g, of 1000] have "on_grid (x * 1000)" by simp
  from round_double_zero_iff[OF this] x have "round_double (x * 1000) \<noteq> Finite 0" by simp
  then show ?thesis using Finite by (simp add: truthy_def num_mul_def)
qed (use assms in \<open>simp_all add: num_mul_def truthy_def negative_def num_lt_def\<close>)

lemma on_grid_one: "on_grid 1"
proof -
  have "(1::rat) = of_int (2 ^ 1074) * pow2 (- 1074)"
    using pow2_diff[of 0 "- 1074"] by (simp add: pow2_nat pow2_def field_simps)
  then show ?thesis unfolding on_grid_def by blast
qed

lemma times_1000:
  assumes "truthy a" and "rounded a"
  shows "truthy (if c then num_mul a (Finite 1000) else a)"
    and "rounded (if c then num_mul a (Finite 1000) else a)"
proof -
  have t: "truthy (num_mul a (Finite 1000))" using assms by (rule num_mul_1000_truthy)
  then have "num_mul a (Finite 1000) \<noteq> NaN" by (auto simp: truthy_def)
  then have r: "rounded (num_mul a (Finite 1000))" by (rule num_mul_rounded)
  show "truthy (if c then num_mul a (Finite 1000) else a)" using t assms(1) by simp
  show "rounded (if c then num_mul a (Finite 1000) else a)" using r assms(2) by simp
qed

text \<open>
  With a finite price and a measure value that is a double, the key of the comparator is
  a number: the measure value, or \<open>1\<close> in its place, is not \<open>0\<close>, and neither is its
  product with \<open>1000\<close>.
\<close>

lemma getBasePrice_not_NaN:
  assumes "is_finite (price i)"
    and "\<And>v. measureValue i = Some v \<Longrightarrow> truthy v \<Longrightarrow> rounded v"
  shows "getBasePrice i \<noteq> NaN"
proof -
  define v0 where "v0 = (if truthy_number (measureValue i) then the (measureValue i) else Finite 1)"
  define v1 where "v1 = (if measureUnit i = Some (ascii ''kg'') then num_mul v0 (Finite 1000) else v0)"
  define v2 where "v2 = (if measureUnit i = Some (ascii ''l'') then num_mul v1 (Finite 1000) else v1)"
  have t0: "truthy v0" and r0: "rounded v0"
    using assms(2) on_grid_one
    by (auto simp: v0_def truthy_number_def truthy_def rounded_def split: option.splits)
  have t1: "truthy v1" and r1: "rounded v1"
    unfolding v1_def using t0 r0 by (rule times_1000)+
  have t2: "truthy v2"
    unfolding v2_def using t1 r1 by (rule times_1000)
  from assms(1) obtain p where p: "price i = Finite p"
    by (cases "price i") (simp_all add: is_finite_def)
  have "num_div (Finite p) v2 \<noteq> NaN"
    using t2 by (cases v2) (auto simp: num_div_def truthy_def split: if_splits)
  moreover have "getBasePrice i = num_div (Finite p) v2"
    by (simp add: getBasePrice_def Let_def p v0_def v1_def v2_def)
  ultimately show ?thesis by simp
qed

subsection \<open>The sort\<close>

text \<open>
  The sort rearranges its argument, whatever the comparator. With a comparator that
  decides as a linear order of keys does, it is the stable sort by these keys.
\<close>

lemma mset_insert_by: "mset (insert_by cmp x ys) = add_mset x (mset ys)"
  by (induction ys) simp_all

lemma mset_sort_by: "mset (sort_by cmp xs) = mset xs"
  by (induction xs) (simp_all add: sort_by_def mset_insert_by)

lemma set_sort_by: "set (sort_by cmp xs) = set xs"
  using mset_sort_by[of cmp xs] by (metis set_mset_mset)




subsection \<open>The grouping\<close>

lemma keys_group_push: "set (map fst (group_push c i G)) = insert c (set (map fst G))"
proof (induction G)
  case Nil
  show ?case by simp
next
  case (Cons p G)
  then show ?case by (cases p) auto
qed

lemma distinct_group_push:
  "distinct (map fst G) \<Longrightarrow> distinct (map fst (group_push c i G))"
proof (induction G)
  case Nil
  show ?case by simp
next
  case (Cons p G)
  obtain key g where p: "p = (key, g)" by (cases p)
  from Cons.prems have "key \<notin> set (map fst G)" and "distinct (map fst G)"
    by (simp_all add: p)
  with Cons.IH show ?case
    using keys_group_push[of c i G] by (auto simp: p)
qed

lemma map_of_group_push:
  "map_of (group_push c i G) k =
     (if k = c then Some (case map_of G c of None \<Rightarrow> [i] | Some g \<Rightarrow> g @ [i])
      else map_of G k)"
  by (induction G) (auto)

lemma group_items_char:
  "group_items lower its G = Inr G' \<Longrightarrow> distinct (map fst G) \<Longrightarrow>
     distinct (map fst G')
     \<and> (\<forall>k. map_of G' k = joined (map_of G k) (members_of lower k its))"
proof (induction its arbitrary: G)
  case Nil
  then show ?case by (auto simp: joined_def members_of_def split: option.splits)
next
  case (Cons item rest)
  show ?case
  proof (cases "has_measure item")
    case False
    with Cons.prems have "group_items lower rest G = Inr G'" by simp
    from Cons.IH[OF this Cons.prems(2)] False show ?thesis
      by (simp add: members_of_def)
  next
    case True
    with Cons.prems have
      r: "group_items lower rest (group_push (category_key lower item) item G) = Inr G'"
      by (auto simp: Let_def split: if_splits)
    from Cons.IH[OF r distinct_group_push[OF Cons.prems(2)]]
    have d: "distinct (map fst G')"
      and m: "\<And>k. map_of G' k =
                joined (map_of (group_push (category_key lower item) item G) k)
                  (members_of lower k rest)"
      by auto
    have "map_of G' k = joined (map_of G k) (members_of lower k (item # rest))" for k
      using True by (simp add: m map_of_group_push joined_def members_of_def split: option.splits)
    with d show ?thesis by simp
  qed
qed

lemma group_items_total:
  "(\<exists>G'. group_items lower its G = Inr G') \<longleftrightarrow>
     (\<forall>i \<in> set its. has_measure i \<longrightarrow> category_key lower i \<notin> set inherited_keys)"
  by (induction its arbitrary: G) (auto simp: Let_def)

lemma mset_own_keys_order: "mset (own_keys_order G) = mset G"
  by (simp add: own_keys_order_def)

lemma set_own_keys_order: "set (own_keys_order G) = set G"
  using mset_own_keys_order[of G] by (metis set_mset_mset)

lemma distinct_own_keys_order:
  "distinct (map fst G) \<Longrightarrow> distinct (map fst (own_keys_order G))"
proof -
  assume d: "distinct (map fst G)"
  have "mset (map fst (own_keys_order G)) = mset (map fst G)"
    by (simp only: mset_map mset_own_keys_order)
  then show ?thesis using d by (metis mset_eq_imp_distinct_iff)
qed

lemma comparisonGroups_char:
  assumes "comparisonGroups lower its = Inr gs"
  shows "distinct (map fst gs)"
    and "(k, g) \<in> set gs \<longleftrightarrow>
           members_of lower k its \<noteq> []
           \<and> g = sort_by compare_base_price (members_of lower k its)"
proof -
  let ?S = "\<lambda>(key, g). (key, sort_by compare_base_price g)"
  from assms obtain G where G: "group_items lower its [] = Inr G"
    and gs: "gs = own_keys_order (map ?S G)"
    by (auto simp: comparisonGroups_def split: sum.splits)
  from group_items_char[OF G] have d: "distinct (map fst G)"
    and m: "\<And>k. map_of G k =
              (if members_of lower k its = [] then None else Some (members_of lower k its))"
    by (simp_all add: joined_def)
  have fst_eq: "map fst (map ?S G) = map fst G" by (simp add: split_def comp_def)
  have "distinct (map fst (map ?S G))" unfolding fst_eq by (rule d)
  then show "distinct (map fst gs)" unfolding gs by (rule distinct_own_keys_order)
  have "(k, g) \<in> set gs \<longleftrightarrow> (k, g) \<in> set (map ?S G)"
    by (simp only: gs set_own_keys_order)
  also have "\<dots> \<longleftrightarrow> (\<exists>g0. (k, g0) \<in> set G \<and> g = sort_by compare_base_price g0)"
    by auto
  also have "\<dots> \<longleftrightarrow> (\<exists>g0. map_of G k = Some g0 \<and> g = sort_by compare_base_price g0)"
    using d by simp
  also have "\<dots> \<longleftrightarrow> members_of lower k its \<noteq> []
                    \<and> g = sort_by compare_base_price (members_of lower k its)"
    by (auto simp: m)
  finally show "(k, g) \<in> set gs \<longleftrightarrow>
           members_of lower k its \<noteq> []
           \<and> g = sort_by compare_base_price (members_of lower k its)" .
qed

lemma comparisonGroups_total:
  "(\<exists>gs. comparisonGroups lower its = Inr gs) \<longleftrightarrow>
     (\<forall>i \<in> set its. has_measure i \<longrightarrow> category_key lower i \<notin> set inherited_keys)"
  using group_items_total[of lower its "[]"]
  by (auto simp: comparisonGroups_def split: sum.splits)

lemma kg_not_l: "ascii ''kg'' \<noteq> ascii ''l''"
  by (simp add: ascii_def)

lemma getBasePrice_unit_price: "getBasePrice i = unit_price i"
proof -
  have v0: "(if truthy_number (measureValue i) then the (measureValue i) else Finite 1)
              = measure_or_one i"
    by (auto simp: truthy_number_def truthy_def measure_or_one_def split: option.splits)
  show ?thesis
    using kg_not_l
    by (auto simp: getBasePrice_def unit_price_def normalized_measure_def Let_def v0)
qed

lemma group_member:
  assumes "comparisonGroups lower its = Inr gs" and "(key, g) \<in> set gs"
  shows "set g = set (members_of lower key its)" and "g \<noteq> []"
    and "mset g = mset (members_of lower key its)"
proof -
  from comparisonGroups_char(2)[OF assms(1), of key g] assms(2)
  have ne: "members_of lower key its \<noteq> []"
    and g: "g = sort_by compare_base_price (members_of lower key its)"
    by simp_all
  show "set g = set (members_of lower key its)" by (simp add: g set_sort_by)
  then show "g \<noteq> []" using ne by (metis set_empty)
  show "mset g = mset (members_of lower key its)" by (simp add: g mset_sort_by)
qed

lemma member_props:
  assumes "comparisonGroups lower its = Inr gs" and "(key, g) \<in> set gs" and "e \<in> set g"
  shows "e \<in> set its" and "has_measure e" and "category_key lower e = key"
  using group_member(1)[OF assms(1,2)] assms(3) by (auto simp: members_of_def)

lemma group_of_entry:
  assumes "comparisonGroups lower its = Inr gs" and "e \<in> set its" and "has_measure e"
  shows "(category_key lower e,
          sort_by compare_base_price (members_of lower (category_key lower e) its)) \<in> set gs"
    and "e \<in> set (sort_by compare_base_price (members_of lower (category_key lower e) its))"
proof -
  from assms(2,3) have e: "e \<in> set (members_of lower (category_key lower e) its)"
    by (simp add: members_of_def)
  then have "members_of lower (category_key lower e) its \<noteq> []" by auto
  then show "(category_key lower e,
          sort_by compare_base_price (members_of lower (category_key lower e) its)) \<in> set gs"
    using comparisonGroups_char(2)[OF assms(1)] by simp
  from e show "e \<in> set (sort_by compare_base_price (members_of lower (category_key lower e) its))"
    by (simp add: set_sort_by)
qed

lemma same_key_same_group:
  assumes "comparisonGroups lower its = Inr gs"
    and "(key, g) \<in> set gs" and "(key, g') \<in> set gs"
  shows "g = g'"
  using comparisonGroups_char(2)[OF assms(1)] assms(2,3) by simp



text \<open>
  In a cart of finite prices whose measure values are doubles no unit price is \<^verbatim>\<open>NaN\<close>.
\<close>

lemma data_model_unit_prices:
  assumes "\<forall>i \<in> set its. is_finite (price i)
             \<and> (\<forall>v. measureValue i = Some v \<and> truthy v \<longrightarrow> rounded v)"
  shows "\<forall>i \<in> set its. unit_price i \<noteq> NaN"
proof
  fix i assume i: "i \<in> set its"
  from assms i have f: "is_finite (price i)" by blast
  have r: "rounded v" if "measureValue i = Some v" "truthy v" for v
    using assms i that by blast
  have "getBasePrice i \<noteq> NaN" by (rule getBasePrice_not_NaN[OF f r])
  then show "unit_price i \<noteq> NaN" unfolding getBasePrice_unit_price .
qed






lemma example_groups_eq: "comparisonGroups lower_ascii example_cart = Inr example_groups"
  by code_simp

lemma example_distinct: "distinct (map id_item example_cart)"
  by code_simp


lemma example_rice_group: "(ascii ''rice'', [rice_A, rice_B]) \<in> set example_groups"
  by (simp add: example_groups_def)

lemma example_milk_group: "(ascii ''leite integral'', [milk_C]) \<in> set example_groups"
  by (simp add: example_groups_def)

text \<open>
  A cart with a measured entry whose category key is a property name of
  \<^verbatim>\<open>Object.prototype\<close> has no comparison groups: the computation throws. Every other cart
  has them.
\<close>

lemma constructor_category_throws:
  "comparisonGroups lower_ascii [rice_A\<lparr>category := Some (ascii ''Constructor'')\<rparr>] = Inl TypeError"
  by code_simp

text \<open>
  The arithmetic is that of doubles: \<^verbatim>\<open>1.005 * 1000\<close> is below \<open>1005\<close>, so of two packages
  of the same price the one of \<open>1005\<close> \<^verbatim>\<open>g\<close> comes before the one of \<^verbatim>\<open>1.005\<close> \<^verbatim>\<open>kg\<close>.
\<close>

lemma rounding_decides_order:
  "sort_by compare_base_price [pack_kg, pack_g] = [pack_g, pack_kg]"
  by code_simp

text \<open>
  And \<^verbatim>\<open>0.3 * 1000\<close> is \<open>300\<close>, so packages of \<^verbatim>\<open>0.3\<close> \<^verbatim>\<open>kg\<close> and of \<open>300\<close> \<^verbatim>\<open>g\<close> at the
  same price tie and keep their order.
\<close>

lemma rounding_makes_tie:
  "getBasePrice pack_03 = getBasePrice pack_300
   \<and> sort_by compare_base_price [pack_03, pack_300] = [pack_03, pack_300]
   \<and> sort_by compare_base_price [pack_300, pack_03] = [pack_300, pack_03]"
  by code_simp






text \<open>
  C3, as stated, fails: an entry with a measure value and a unit is placed under the
  normalised form of its category, which need not be its category. The entry of category
  \<^verbatim>\<open>creme_dental\<close> is in the group of key \<^verbatim>\<open>creme dental\<close>, and the record has no key
  \<^verbatim>\<open>creme_dental\<close>.
\<close>

theorem grouping_by_category_counterexample:
  "category toothpaste = Some (ascii ''creme_dental'')
   \<and> measureValue toothpaste = Some (Finite 90) \<and> measureUnit toothpaste = Some (ascii ''g'')
   \<and> comparisonGroups lower_ascii [toothpaste] = Inr [(ascii ''creme dental'', [toothpaste])]
   \<and> map_of [(ascii ''creme dental'', [toothpaste])] (ascii ''creme_dental'') = None"
  by code_simp

text \<open>
  C3, amended. An entry of the cart with no measure value, with the measure value \<open>0\<close> or
  \<^verbatim>\<open>NaN\<close>, with no unit or with the empty unit is in no comparison group. Every other entry
  of the cart is in exactly one group, the group of its category key (the category in
  lower case with spaces for underscores, \<^verbatim>\<open>outros\<close> for an entry without category), and
  it is there as often as it is in the cart. This holds whatever function \<open>lower\<close> the
  platform has for \<^verbatim>\<open>toLowerCase\<close>, on every cart for which the grouping completes.
\<close>

theorem grouping_membership:
  assumes "comparisonGroups lower its = Inr gs" and "e \<in> set its"
  shows "(measureValue e \<in> {None, Some (Finite 0), Some NaN} \<or> measureUnit e \<in> {None, Some []}
            \<longrightarrow> (\<forall>key g. (key, g) \<in> set gs \<longrightarrow> e \<notin> set g))
       \<and> (measureValue e \<notin> {None, Some (Finite 0), Some NaN} \<and> measureUnit e \<notin> {None, Some []}
            \<longrightarrow> (\<exists>!kg. kg \<in> set gs \<and> e \<in> set (snd kg))
              \<and> (\<exists>g. (category_key lower e, g) \<in> set gs
                      \<and> count_list g e = count_list its e))"
proof -
  have hm: "has_measure e \<longleftrightarrow>
      measureValue e \<notin> {None, Some (Finite 0), Some NaN} \<and> measureUnit e \<notin> {None, Some []}"
    by (auto simp: has_measure_def truthy_number_def truthy_string_def truthy_def
        split: option.splits)
  have excl: "e \<notin> set g" if "\<not> has_measure e" "(key, g) \<in> set gs" for key g
    using member_props(2)[OF assms(1) that(2)] that(1) by blast
  have incl: "(\<exists>!kg. kg \<in> set gs \<and> e \<in> set (snd kg))
      \<and> (\<exists>g. (category_key lower e, g) \<in> set gs \<and> count_list g e = count_list its e)"
    if m: "has_measure e"
  proof -
    let ?g = "sort_by compare_base_price (members_of lower (category_key lower e) its)"
    note G = group_of_entry[OF assms(1,2) m]
    have uniq: "kg = (category_key lower e, ?g)" if "kg \<in> set gs" "e \<in> set (snd kg)" for kg
    proof -
      obtain k g where kg: "kg = (k, g)" by (cases kg)
      from that kg have "(k, g) \<in> set gs" "e \<in> set g" by auto
      from member_props(3)[OF assms(1) this] have "k = category_key lower e" by simp
      with same_key_same_group[OF assms(1) G(1)] \<open>(k, g) \<in> set gs\<close> kg show ?thesis by simp
    qed
    have "count (mset ?g) e = count (mset its) e"
      using m by (simp add: members_of_def mset_sort_by)
    then have "count_list ?g e = count_list its e" by (simp only: count_mset)
    then have c: "\<exists>g. (category_key lower e, g) \<in> set gs \<and> count_list g e = count_list its e"
      using G(1) by blast
    have "\<exists>!kg. kg \<in> set gs \<and> e \<in> set (snd kg)"
    proof (rule ex1I[of _ "(category_key lower e, ?g)"])
      show "(category_key lower e, ?g) \<in> set gs \<and> e \<in> set (snd (category_key lower e, ?g))"
        using G by simp
    next
      fix kg assume "kg \<in> set gs \<and> e \<in> set (snd kg)"
      then show "kg = (category_key lower e, ?g)" using uniq by blast
    qed
    then show ?thesis using c by (rule conjI)
  qed
  show ?thesis
  proof (intro conjI impI allI)
    fix key g
    assume "measureValue e \<in> {None, Some (Finite 0), Some NaN} \<or> measureUnit e \<in> {None, Some []}"
      and "(key, g) \<in> set gs"
    then show "e \<notin> set g" using excl hm by blast
  next
    assume "measureValue e \<notin> {None, Some (Finite 0), Some NaN} \<and> measureUnit e \<notin> {None, Some []}"
    then have "has_measure e" using hm by blast
    from incl[OF this] show "\<exists>!kg. kg \<in> set gs \<and> e \<in> set (snd kg)" ..
  next
    assume "measureValue e \<notin> {None, Some (Finite 0), Some NaN} \<and> measureUnit e \<notin> {None, Some []}"
    then have "has_measure e" using hm by blast
    from incl[OF this]
    show "\<exists>g. (category_key lower e, g) \<in> set gs \<and> count_list g e = count_list its e" ..
  qed
qed

theorem grouping_membership_witness:
  "comparisonGroups lower_ascii example_cart = Inr example_groups
   \<and> bread_D \<in> set example_cart \<and> measureValue bread_D \<in> {None, Some (Finite 0), Some NaN}
   \<and> bread_D \<notin> set [rice_A, rice_B] \<and> bread_D \<notin> set [milk_C]
   \<and> milk_C \<in> set example_cart
   \<and> measureValue milk_C \<notin> {None, Some (Finite 0), Some NaN}
   \<and> measureUnit milk_C \<notin> {None, Some []}
   \<and> category_key lower_ascii milk_C = ascii ''leite integral''
   \<and> (\<exists>!kg. kg \<in> set example_groups \<and> milk_C \<in> set (snd kg))
   \<and> (\<exists>g. (ascii ''leite integral'', g) \<in> set example_groups
            \<and> count_list g milk_C = count_list example_cart milk_C)"
proof -
  have b: "bread_D \<in> set example_cart" and m: "milk_C \<in> set example_cart"
    by (simp_all add: example_cart_def)
  have bv: "measureValue bread_D \<in> {None, Some (Finite 0), Some NaN}" by (simp add: bread_D_def)
  have mv: "measureValue milk_C \<notin> {None, Some (Finite 0), Some NaN}
      \<and> measureUnit milk_C \<notin> {None, Some []}"
    by (simp add: milk_C_def ascii_def)
  have k: "category_key lower_ascii milk_C = ascii ''leite integral''" by code_simp
  from grouping_membership[OF example_groups_eq b] bv
  have ex: "\<forall>key g. (key, g) \<in> set example_groups \<longrightarrow> bread_D \<notin> set g" by blast
  from ex example_rice_group have e1: "bread_D \<notin> set [rice_A, rice_B]" by blast
  from ex example_milk_group have e2: "bread_D \<notin> set [milk_C]" by blast
  from grouping_membership[OF example_groups_eq m] mv
  have "(\<exists>!kg. kg \<in> set example_groups \<and> milk_C \<in> set (snd kg))
      \<and> (\<exists>g. (category_key lower_ascii milk_C, g) \<in> set example_groups
             \<and> count_list g milk_C = count_list example_cart milk_C)" by blast
  then have inc: "(\<exists>!kg. kg \<in> set example_groups \<and> milk_C \<in> set (snd kg))
      \<and> (\<exists>g. (ascii ''leite integral'', g) \<in> set example_groups
             \<and> count_list g milk_C = count_list example_cart milk_C)" by (simp only: k)
  from example_groups_eq b bv e1 e2 m mv k inc show ?thesis by blast
qed

text \<open>
  C7, as stated, fails: the key of a group is the normalised category, so two entries
  whose category strings differ can share a group. \<^verbatim>\<open>Rice\<close> and \<^verbatim>\<open>rice\<close> do.
\<close>

theorem exact_category_counterexample:
  "category rice_upper \<noteq> category rice_A
   \<and> comparisonGroups lower_ascii [rice_upper, rice_A]
       = Inr [(ascii ''rice'', [rice_A, rice_upper])]"
  by code_simp

text \<open>
  C7, amended. Two measured entries of the cart are in the same comparison group exactly
  when their category keys are equal, the key being the category in lower case with spaces
  for underscores (\<^verbatim>\<open>outros\<close> for an entry without category): entries whose keys differ are
  in different groups, and categories that differ only in case or in underscore against
  space are merged. This holds whatever function \<open>lower\<close> the platform has for
  \<^verbatim>\<open>toLowerCase\<close>.
\<close>

theorem grouping_key_normalised:
  assumes "comparisonGroups lower its = Inr gs" and "a \<in> set its" and "b \<in> set its"
    and "has_measure a" and "has_measure b"
  shows "(\<exists>key g. (key, g) \<in> set gs \<and> a \<in> set g \<and> b \<in> set g)
           \<longleftrightarrow> category_key lower a = category_key lower b"
proof
  assume "\<exists>key g. (key, g) \<in> set gs \<and> a \<in> set g \<and> b \<in> set g"
  then obtain key g where "(key, g) \<in> set gs" "a \<in> set g" "b \<in> set g" by blast
  with member_props(3)[OF assms(1)] show "category_key lower a = category_key lower b" by metis
next
  assume eq: "category_key lower a = category_key lower b"
  let ?g = "sort_by compare_base_price (members_of lower (category_key lower a) its)"
  from group_of_entry[OF assms(1,2,4)]
  have 1: "(category_key lower a, ?g) \<in> set gs" and 2: "a \<in> set ?g" by simp_all
  from group_of_entry(2)[OF assms(1,3,5)] have 3: "b \<in> set ?g" by (simp only: eq)
  from 1 2 3 show "\<exists>key g. (key, g) \<in> set gs \<and> a \<in> set g \<and> b \<in> set g" by blast
qed

theorem grouping_key_normalised_witness:
  "comparisonGroups lower_ascii example_cart = Inr example_groups
   \<and> rice_A \<in> set example_cart \<and> rice_B \<in> set example_cart
   \<and> has_measure rice_A \<and> has_measure rice_B
   \<and> category_key lower_ascii rice_A = category_key lower_ascii rice_B
   \<and> (\<exists>key g. (key, g) \<in> set example_groups \<and> rice_A \<in> set g \<and> rice_B \<in> set g)"
proof -
  have a: "rice_A \<in> set example_cart" and b: "rice_B \<in> set example_cart"
    by (simp_all add: example_cart_def)
  have ha: "has_measure rice_A" and hb: "has_measure rice_B" by code_simp+
  have k: "category_key lower_ascii rice_A = category_key lower_ascii rice_B" by code_simp
  from grouping_key_normalised[OF example_groups_eq a b ha hb]
  show ?thesis using example_groups_eq a b ha hb k by simp
qed

subsection \<open>Totals\<close>

lemma foldl_add_sum_list:
  fixes f :: "'a \<Rightarrow> 'b::comm_monoid_add"
  shows "foldl (\<lambda>s x. s + f x) a xs = a + sum_list (map f xs)"
  by (induction xs arbitrary: a) (simp_all add: add.assoc)

lemma itemCount_sum: "itemCount its = (\<Sum>item\<leftarrow>its. quantity item)"
  by (simp add: itemCount_def foldl_add_sum_list)

text \<open>
  The total cost is the sum of price times quantity over the entries of the cart, added
  up in the order of the cart in the arithmetic of doubles.
\<close>

lemma totalCost_Nil: "totalCost [] = Finite 0"
  by (simp add: totalCost_def)

lemma totalCost_snoc:
  "totalCost (its @ [item])
     = num_add (totalCost its) (num_mul (price item) (num_of_int (quantity item)))"
  by (simp add: totalCost_def)

text \<open>
  With no budget the usage and the remaining budget are \<open>0\<close> and the cart is not over
  budget. With a budget other than \<open>0\<close> the three values are as the rules say.
\<close>

lemma totals_without_budget:
  "budgetPercentage None its = Finite 0 \<and> remainingBudget None its = Finite 0
   \<and> \<not> isOverBudget None its"
  by (simp add: budgetPercentage_def remainingBudget_def isOverBudget_def)

lemma totals_with_budget:
  assumes "truthy b"
  shows "budgetPercentage (Some b) its
           = Math_min (num_mul (num_div (totalCost its) b) (Finite 100)) (Finite 100)"
    and "remainingBudget (Some b) its = num_sub b (totalCost its)"
    and "isOverBudget (Some b) its \<longleftrightarrow> num_gt (totalCost its) b"
  using assms by (simp_all add: budgetPercentage_def remainingBudget_def isOverBudget_def)

text \<open>
  The sum is that of doubles: \<^verbatim>\<open>0.1 + 0.2\<close> is above \<^verbatim>\<open>0.3\<close>, so a cart of these two prices
  is over a budget of \<^verbatim>\<open>0.3\<close>, by \<open>2\<^sup>-\<^sup>5\<^sup>4\<close>.
\<close>

lemma rounding_total_example:
  "totalCost cents_cart = Finite (1351079888211149 / 4503599627370496)
   \<and> round_double (3 / 10) = Finite (5404319552844595 / 18014398509481984)
   \<and> isOverBudget (Some (round_double (3 / 10))) cents_cart
   \<and> remainingBudget (Some (round_double (3 / 10))) cents_cart
       = Finite (- (1 / 18014398509481984))"
  by code_simp

lemma example_actions_cart: "cart_after example_env example_actions 0 = cart60"
  by code_simp

text \<open>
  C4. The rules hold for every cart with no budget and with a budget other than \<open>0\<close>
  (\<open>totals_without_budget\<close>, \<open>totals_with_budget\<close>); on the cart of one entry of price
  \<open>10\<close> and quantity \<open>6\<close> that the example actions build, the budget \<open>50\<close> gives over
  budget, the usage \<open>100\<close> and the remaining budget \<open>-10\<close>. The budget \<open>0\<close>, which the
  budget form stores when \<^verbatim>\<open>0\<close> is typed, is handled in two ways: the over-budget flag and
  the balance of the report test \<^verbatim>\<open>budget !== null\<close> and take it for a budget (over
  budget, balance \<open>-60\<close>), while the remaining budget and the usage test \<^verbatim>\<open>budget\<close> for
  truthiness and take it for no budget (both \<open>0\<close>, where the rules give \<open>0 - 60\<close>).
\<close>

theorem zero_budget_divergence:
  "handleSetBudget example_env (ascii ''0'') None = Some (Finite 0)
   \<and> totalCost (cart_after example_env example_actions 0) = Finite 60
   \<and> itemCount (cart_after example_env example_actions 0) = 6
   \<and> isOverBudget (Some (Finite 50)) (cart_after example_env example_actions 0)
   \<and> budgetPercentage (Some (Finite 50)) (cart_after example_env example_actions 0) = Finite 100
   \<and> remainingBudget (Some (Finite 50)) (cart_after example_env example_actions 0) = Finite (- 10)
   \<and> isOverBudget (Some (Finite 0)) (cart_after example_env example_actions 0)
   \<and> finalize_diff (Some (Finite 0)) (cart_after example_env example_actions 0)
       = Some (Finite (- 60))
   \<and> remainingBudget (Some (Finite 0)) (cart_after example_env example_actions 0) = Finite 0
   \<and> budgetPercentage (Some (Finite 0)) (cart_after example_env example_actions 0) = Finite 0"
proof -
  have "handleSetBudget example_env (ascii ''0'') None = Some (Finite 0)" by code_simp
  moreover have "totalCost cart60 = Finite 60" by code_simp
  moreover have "itemCount cart60 = 6" by code_simp
  moreover have "isOverBudget (Some (Finite 50)) cart60" by code_simp
  moreover have "budgetPercentage (Some (Finite 50)) cart60 = Finite 100" by code_simp
  moreover have "remainingBudget (Some (Finite 50)) cart60 = Finite (- 10)" by code_simp
  moreover have "isOverBudget (Some (Finite 0)) cart60" by code_simp
  moreover have "finalize_diff (Some (Finite 0)) cart60 = Some (Finite (- 60))" by code_simp
  moreover have "remainingBudget (Some (Finite 0)) cart60 = Finite 0" by code_simp
  moreover have "budgetPercentage (Some (Finite 0)) cart60 = Finite 0" by code_simp
  ultimately show ?thesis unfolding example_actions_cart by (intro conjI)
qed

subsection \<open>Decrement\<close>

lemma same_id_same_entry:
  assumes "distinct (map id_item prev)" and "item \<in> set prev" and "i \<in> set prev"
  shows "id_item i = id_item item \<longleftrightarrow> i = item"
  using assms by (auto simp: distinct_map dest: inj_onD)

text \<open>
  C5. For a cart with unique identifiers and an entry of it: Decrement on an entry of
  quantity \<open>1\<close> removes that entry and leaves the other entries as they are, in their
  order; Decrement on an entry of quantity above \<open>1\<close> lowers the quantity of that entry
  by \<open>1\<close>, keeps it in its place and leaves the other entries as they are. Adding
  \<^verbatim>\<open>Milk\<close> at \<^verbatim>\<open>4.5\<close> to the empty cart and decrementing it leaves the empty cart.
\<close>

theorem decrement_policy:
  assumes "item \<in> set prev" and "distinct (map id_item prev)"
  shows "(quantity item = 1 \<longrightarrow>
            handleDecrement item prev = filter (\<lambda>i. i \<noteq> item) prev
          \<and> id_item item \<notin> id_item ` set (handleDecrement item prev))
       \<and> (quantity item > 1 \<longrightarrow>
            handleDecrement item prev
              = map (\<lambda>i. if i = item then item\<lparr>quantity := quantity item - 1\<rparr> else i) prev)"
proof -
  have eq: "id_item i = id_item item \<longleftrightarrow> i = item" if "i \<in> set prev" for i
    using same_id_same_entry[OF assms(2,1) that] .
  have rem: "handleRemoveItem (id_item item) prev = filter (\<lambda>i. i \<noteq> item) prev"
    unfolding handleRemoveItem_def by (rule filter_cong) (simp_all add: eq)
  have gone: "id_item item \<notin> id_item ` set (handleRemoveItem (id_item item) prev)"
    by (auto simp: handleRemoveItem_def)
  have upd: "handleUpdateItem (id_item item) (QuantityUpdate q) prev
      = map (\<lambda>i. if i = item then item\<lparr>quantity := q\<rparr> else i) prev" for q
    unfolding handleUpdateItem_def by (rule map_cong) (auto simp: eq)
  show ?thesis using rem gone upd by (simp add: handleDecrement_def)
qed

lemma example_milk_added:
  "snd (handleAddManualItem example_env (ascii ''Milk'') (ascii ''4.5'') [] (0, [])) = [milk]"
  by code_simp

theorem decrement_policy_witness:
  "snd (handleAddManualItem example_env (ascii ''Milk'') (ascii ''4.5'') [] (0, [])) = [milk]
   \<and> milk \<in> set [milk] \<and> distinct (map id_item [milk]) \<and> quantity milk = 1
   \<and> handleDecrement milk [milk] = []
   \<and> milk_C \<in> set example_cart \<and> distinct (map id_item example_cart) \<and> quantity milk_C > 1
   \<and> handleDecrement milk_C example_cart = [rice_B, bread_D, milk_C\<lparr>quantity := 1\<rparr>, rice_A]"
proof -
  have m1: "milk \<in> set [milk]" and d1: "distinct (map id_item [milk])" by simp_all
  have q1: "quantity milk = 1" by (simp add: milk_def)
  have m2: "milk_C \<in> set example_cart" by (simp add: example_cart_def)
  have q2: "quantity milk_C = 2" by (simp add: milk_C_def)
  have ne: "rice_B \<noteq> milk_C" "bread_D \<noteq> milk_C" "rice_A \<noteq> milk_C"
    by (simp_all add: rice_B_def bread_D_def rice_A_def milk_C_def)
  from decrement_policy[OF m1 d1] decrement_policy[OF m2 example_distinct]
  show ?thesis
    using example_milk_added m1 d1 q1 m2 example_distinct q2 ne
    by (simp add: example_cart_def)
qed

subsection \<open>The quantity invariant\<close>

lemma update_quantity_ok:
  "quantities_ok prev \<Longrightarrow> q \<ge> 1 \<Longrightarrow> quantities_ok (handleUpdateItem i (QuantityUpdate q) prev)"
  by (auto simp: quantities_ok_def handleUpdateItem_def)

lemma update_name_ok:
  "quantities_ok prev \<Longrightarrow> quantities_ok (handleUpdateItem i (ProductNameUpdate n) prev)"
  by (auto simp: quantities_ok_def handleUpdateItem_def)

lemma remove_ok: "quantities_ok prev \<Longrightarrow> quantities_ok (handleRemoveItem i prev)"
  by (auto simp: quantities_ok_def handleRemoveItem_def)

lemma increment_ok:
  "quantities_ok prev \<Longrightarrow> item \<in> set prev \<Longrightarrow> quantities_ok (handleIncrement item prev)"
  unfolding handleIncrement_def by (rule update_quantity_ok) (auto simp: quantities_ok_def)

lemma decrement_ok: "quantities_ok prev \<Longrightarrow> quantities_ok (handleDecrement item prev)"
  by (simp add: handleDecrement_def update_quantity_ok remove_ok)

lemma nameBlur_ok: "quantities_ok prev \<Longrightarrow> quantities_ok (handleNameBlur t item prev)"
  by (simp add: handleNameBlur_def update_name_ok)

lemma clear_ok: "quantities_ok prev \<Longrightarrow> quantities_ok (handleClearAll c prev)"
  by (simp add: handleClearAll_def quantities_ok_def)

lemma manual_ok:
  "quantities_ok prev \<Longrightarrow> quantities_ok (snd (handleAddManualItem env n p s (w, prev)))"
  by (auto simp: handleAddManualItem_def quantities_ok_def Let_def split: option.splits prod.splits)

lemma file_loop_ok:
  "file_loop env n files i newItems errorMsg w st = (newItems', errorMsg', w', st')
    \<Longrightarrow> quantities_ok newItems \<Longrightarrow> quantities_ok newItems' \<and> items st' = items st"
proof (induction files arbitrary: i newItems errorMsg w st)
  case Nil
  then show ?case by simp
next
  case (Cons f rest)
  show ?case
  proof (cases "analyzeProductImage env f w")
    case (Pair r w1)
    show ?thesis
    proof (cases r)
      case (Inl e)
      with Pair Cons.prems(1) have
        "file_loop env n rest (i + 1) newItems (Some batch_error_message) w1
           (st\<lparr>analyzingProgress := Some (i + 1, n)\<rparr>) = (newItems', errorMsg', w', st')"
        by simp
      from Cons.IH[OF this Cons.prems(2)] show ?thesis by simp
    next
      case (Inr result)
      obtain newId w2 where u: "uuidv4 env w1 = (newId, w2)" by (cases "uuidv4 env w1")
      with Inr Pair Cons.prems(1) have
        "file_loop env n rest (i + 1) (newItems @ [newItem_of_result newId result]) errorMsg w2
           (st\<lparr>analyzingProgress := Some (i + 1, n)\<rparr>) = (newItems', errorMsg', w', st')"
        by simp
      moreover have "quantities_ok (newItems @ [newItem_of_result newId result])"
        using Cons.prems(2) by (simp add: quantities_ok_def newItem_of_result_def)
      ultimately show ?thesis using Cons.IH by fastforce
    qed
  qed
qed

lemma fileChange_ok:
  "quantities_ok (items st) \<Longrightarrow> quantities_ok (items (snd (handleFileChange env files (w, st))))"
proof (cases "files = []")
  case True
  assume "quantities_ok (items st)"
  with True show ?thesis by (simp add: handleFileChange_def)
next
  case False
  assume ok: "quantities_ok (items st)"
  let ?st0 = "st\<lparr>status := \<lparr>isAnalyzing = True, error = None\<rparr>,
                   analyzingProgress := Some (0, length files)\<rparr>"
  obtain newItems errorMsg w' st1 where
    l: "file_loop env (length files) files 0 [] None w ?st0 = (newItems, errorMsg, w', st1)"
    by (cases "file_loop env (length files) files 0 [] None w ?st0") auto
  from file_loop_ok[OF l] have "quantities_ok newItems" "items st1 = items st"
    by (simp_all add: quantities_ok_def)
  with ok l False show ?thesis
    by (auto simp: handleFileChange_def quantities_ok_def)
qed

lemma on_row_ok:
  assumes "\<And>item. item \<in> set (items st) \<Longrightarrow> quantities_ok (h item (items st))"
    and "quantities_ok (items st)"
  shows "quantities_ok (items (on_row n h st))"
  using assms by (simp add: on_row_def)

lemma apply_action_ok:
  "quantities_ok (items (snd ws)) \<Longrightarrow> quantities_ok (items (snd (apply_action env a ws)))"
proof -
  assume ok: "quantities_ok (items (snd ws))"
  obtain w st where ws: "ws = (w, st)" by (cases ws)
  with ok have st: "quantities_ok (items st)" by simp
  show ?thesis
  proof (cases a)
    case (FileChange files)
    then show ?thesis using fileChange_ok[OF st] ws by simp
  next
    case (AddManualItem n p s)
    then show ?thesis using manual_ok[OF st, of env n p s w] ws
      by (auto split: prod.splits)
  next
    case (Increment n)
    then show ?thesis using ws st by (simp add: on_row_ok increment_ok)
  next
    case (Decrement n)
    then show ?thesis using ws st by (simp add: on_row_ok decrement_ok)
  next
    case (Remove n)
    then show ?thesis using ws st by (simp add: on_row_ok remove_ok)
  next
    case (NameBlur n t)
    then show ?thesis using ws st by (simp add: on_row_ok nameBlur_ok)
  next
    case (ClearAll c)
    then show ?thesis using ws st by (simp add: clear_ok)
  qed
qed

lemma fold_actions_ok:
  "quantities_ok (items (snd ws)) \<Longrightarrow> quantities_ok (items (snd (fold (apply_action env) acts ws)))"
  by (induction acts arbitrary: ws) (simp_all add: apply_action_ok)

text \<open>
  C6. After every sequence of actions (adding by file analysis or by the manual form,
  increment, decrement, removal, renaming and clearing) started on the empty cart, every
  entry of the cart has a quantity of at least \<open>1\<close>.
\<close>

theorem quantity_invariant:
  "\<forall>item \<in> set (cart_after env acts w). quantity item \<ge> 1"
proof -
  have "quantities_ok (items (snd (w, initial_state)))"
    by (simp add: quantities_ok_def initial_state_def)
  from fold_actions_ok[OF this] show ?thesis
    by (simp add: cart_after_def run_actions_def quantities_ok_def)
qed

lemma example_session_cart:
  "cart_after example_env example_session 0 =
     [\<lparr>productName = ascii ''Arroz Branco'', price = Finite 10,
       category = Some (ascii ''arroz''), measureValue = Some (Finite 500),
       measureUnit = Some (ascii ''g''), id_item = replicate 4 117, quantity = 1\<rparr>,
      milk\<lparr>quantity := 2\<rparr>]"
  by code_simp

theorem quantity_invariant_witness:
  "cart_after example_env example_session 0 =
     [\<lparr>productName = ascii ''Arroz Branco'', price = Finite 10,
       category = Some (ascii ''arroz''), measureValue = Some (Finite 500),
       measureUnit = Some (ascii ''g''), id_item = replicate 4 117, quantity = 1\<rparr>,
      milk\<lparr>quantity := 2\<rparr>]
   \<and> quantity (cart_after example_env example_session 0 ! 0) \<ge> 1
   \<and> quantity (cart_after example_env example_session 0 ! 1) \<ge> 1"
  using quantity_invariant[of example_env example_session 0]
  by (simp add: example_session_cart)

subsection \<open>The file batch\<close>

lemma length_analyse_all:
  "analyse_all env files w = (outcomes, w') \<Longrightarrow> length outcomes = length files"
  by (induction files arbitrary: w outcomes)
     (auto split: prod.splits sum.splits)

lemma file_loop_analyse_all:
  "analyse_all env files w = (outcomes, w') \<Longrightarrow>
   file_loop env n files i newItems errorMsg w st =
     (newItems @ successes outcomes,
      (if list_ex isl outcomes then Some batch_error_message else errorMsg),
      w',
      (if files = [] then st else st\<lparr>analyzingProgress := Some (i + length files, n)\<rparr>))"
proof (induction files arbitrary: w w' outcomes i newItems errorMsg st)
  case Nil
  then show ?case by (simp add: successes_def)
next
  case (Cons f rest)
  obtain r w1 where a: "analyzeProductImage env f w = (r, w1)"
    by (cases "analyzeProductImage env f w")
  show ?case
  proof (cases r)
    case (Inl e)
    obtain rs w2 where rest: "analyse_all env rest w1 = (rs, w2)"
      by (cases "analyse_all env rest w1")
    with Cons.prems a Inl have o: "outcomes = Inl e # rs" and w: "w' = w2" by simp_all
    show ?thesis
      using Cons.IH[OF rest] a Inl
      by (simp add: o w successes_def Let_def)
  next
    case (Inr result)
    obtain newId w2 where u: "uuidv4 env w1 = (newId, w2)" by (cases "uuidv4 env w1")
    obtain rs w3 where rest: "analyse_all env rest w2 = (rs, w3)"
      by (cases "analyse_all env rest w2")
    with Cons.prems a Inr u have o: "outcomes = Inr (newItem_of_result newId result) # rs"
      and w: "w' = w3" by simp_all
    show ?thesis
      using Cons.IH[OF rest] a Inr u
      by (simp add: o w successes_def Let_def)
  qed
qed

text \<open>
  C8. For a batch of files: every file is analysed, in the order of the batch and one at
  a time, each in the world the files before it left and whatever their outcome; every
  successful analysis gives an entry, and the entries are put in front of the cart in the
  order of their files; the state after the batch holds one error message, the same
  whatever the number of failures, exactly when some analysis failed.
\<close>

theorem batch_continues_after_failure:
  assumes "files \<noteq> []" and "analyse_all env files w = (outcomes, w')"
  shows "length outcomes = length files
       \<and> handleFileChange env files (w, st) =
           (w', st\<lparr>items := successes outcomes @ items st,
                   status := \<lparr>isAnalyzing = False, error = aggregate_error outcomes\<rparr>,
                   analyzingProgress := None\<rparr>)"
  using assms(1) length_analyse_all[OF assms(2)]
  by (simp add: handleFileChange_def file_loop_analyse_all[OF assms(2)] aggregate_error_def)

lemma ex_outcomes: "analyse_all example_env [0, 1, 2] 0 = ([Inr (newItem_of_result (replicate 1 117) example_scan), Inl ReaderFailed, Inr (newItem_of_result (replicate 3 117) example_scan)], 4)"
  by code_simp

theorem batch_continues_after_failure_witness:
  "[0, 1, 2] \<noteq> ([] :: nat list)
   \<and> analyse_all example_env [0, 1, 2] 0
       = ([Inr (newItem_of_result (replicate 1 117) example_scan), Inl ReaderFailed,
           Inr (newItem_of_result (replicate 3 117) example_scan)], 4)
   \<and> handleFileChange example_env [0, 1, 2] (0, initial_state)
       = (4, initial_state\<lparr>items := [newItem_of_result (replicate 1 117) example_scan,
                                       newItem_of_result (replicate 3 117) example_scan],
              status := \<lparr>isAnalyzing = False, error = Some batch_error_message\<rparr>\<rparr>)"
proof -
  have ne: "[0, 1, 2] \<noteq> ([] :: nat list)" by simp
  from batch_continues_after_failure[OF ne ex_outcomes, of initial_state]
  show ?thesis using ex_outcomes
    by (simp add: successes_def aggregate_error_def initial_state_def)
qed

subsection \<open>The manual form\<close>

lemma strip_Cons:
  "rev (dropWhile R (rev (c # s))) =
     (if (\<forall>x \<in> set s. R x) then (if R c then [] else [c]) else c # rev (dropWhile R (rev s)))"
  by (simp add: dropWhile_append)

lemma takeWhile_strip:
  "takeWhile (\<lambda>c. \<not> R c) (rev (dropWhile R (rev s))) = takeWhile (\<lambda>c. \<not> R c) s"
proof (induction s)
  case Nil
  show ?case by simp
next
  case (Cons c s)
  show ?case
  proof (cases "R c")
    case True
    then show ?thesis by (simp only: strip_Cons) simp
  next
    case False
    show ?thesis
    proof (cases "\<forall>x \<in> set s. R x")
      case True
      then have "takeWhile (\<lambda>c. \<not> R c) s = []" by (cases s) auto
      with True False show ?thesis by (simp only: strip_Cons) simp
    next
      case F2: False
      with False Cons.IH show ?thesis by (simp only: strip_Cons) simp
    qed
  qed
qed

lemma is_space_space: "is_space 32"
  by (simp add: is_space_def)

lemma first_word_trim:
  assumes "plain_name s"
  shows "first_word (trim s) = split_space_first s" and "split_space_first s \<noteq> []"
proof -
  from assms have ne: "s \<noteq> []" and h: "\<not> is_space (hd s)"
    and sp: "\<And>c. c \<in> set s \<Longrightarrow> is_space c \<Longrightarrow> c = 32"
    by (auto simp: plain_name_def)
  from ne h have d: "dropWhile is_space s = s" by (cases s) auto
  have "first_word (trim s) = takeWhile (\<lambda>c. \<not> is_space c) s"
    by (simp add: first_word_def trim_def d takeWhile_strip)
  also have "\<dots> = takeWhile (\<lambda>c. c \<noteq> 32) s"
    using sp is_space_space by (intro takeWhile_cong refl) auto
  finally show "first_word (trim s) = split_space_first s" by (simp add: split_space_first_def)
  from ne h is_space_space show "split_space_first s \<noteq> []"
    by (cases s) (auto simp: split_space_first_def)
qed

lemma size_match_at_unit: "size_match_at s = Some (d, u) \<Longrightarrow> u \<noteq> []"
  by (auto simp: size_match_at_def Let_def split: if_splits)

lemma size_match_unit: "size_match s = Some (d, u) \<Longrightarrow> u \<noteq> []"
  by (induction s) (auto dest: size_match_at_unit split: option.splits)

lemma size_match_at_digit: "size_match_at s = Some (d, u) \<Longrightarrow> s \<noteq> [] \<and> is_digit (hd s)"
proof -
  assume "size_match_at s = Some (d, u)"
  then have "takeWhile is_digit s \<noteq> []"
    by (auto simp: size_match_at_def Let_def split: if_splits)
  then show ?thesis by (cases s) (auto split: if_splits)
qed

lemma size_match_digit: "size_match s = Some (d, u) \<Longrightarrow> \<exists>c \<in> set s. is_digit c"
proof (induction s)
  case Nil
  then show ?case using size_match_at_digit[of "[]" d u] by simp
next
  case (Cons c s)
  show ?case
  proof (cases "size_match_at (c # s)")
    case None
    with Cons show ?thesis by auto
  next
    case (Some m)
    with Cons.prems have "size_match_at (c # s) = Some (d, u)" by simp
    from size_match_at_digit[OF this] show ?thesis by auto
  qed
qed

lemma digit_not_space: "is_digit c \<Longrightarrow> \<not> is_space c"
  by (auto simp: is_digit_def is_space_def)

lemma trim_Nil: "trim s = [] \<Longrightarrow> \<forall>c \<in> set s. is_space c"
proof -
  assume "trim s = []"
  then have "dropWhile is_space (rev (dropWhile is_space s)) = []" by (simp add: trim_def)
  then have "\<forall>c \<in> set (dropWhile is_space s). is_space c" by (simp add: dropWhile_eq_Nil_conv)
  then have "dropWhile is_space s = []"
    using hd_dropWhile[of is_space s] by (cases "dropWhile is_space s") auto
  then show ?thesis by (simp add: dropWhile_eq_Nil_conv)
qed

lemma size_match_trim: "size_match s = Some (d, u) \<Longrightarrow> trim s \<noteq> []"
  using size_match_digit[of s d u] trim_Nil[of s] digit_not_space by blast

lemma manual_added:
  assumes "trim manualName \<noteq> []" and "trim manualPrice \<noteq> []"
    and "parseFloat env (replace_first_comma manualPrice) \<noteq> NaN"
  shows "handleAddManualItem env manualName manualPrice manualSize (w, prev) =
     (snd (uuidv4 env w),
      \<lparr>productName = trim manualName,
        price = parseFloat env (replace_first_comma manualPrice),
        category = Some (toLowerCase env (split_space_first manualName)),
        measureValue = (case (if trim manualSize \<noteq> [] then size_match manualSize else None) of
                          None \<Rightarrow> None | Some (d, u) \<Rightarrow> Some (parseFloat env d)),
        measureUnit = (case (if trim manualSize \<noteq> [] then size_match manualSize else None) of
                         None \<Rightarrow> None | Some (d, u) \<Rightarrow> Some (toLowerCase env u)),
        id_item = fst (uuidv4 env w), quantity = 1\<rparr> # prev)"
  using assms by (simp add: handleAddManualItem_def Let_def split_def)

text \<open>
  C10, as stated, fails: a size that parses into a measure value and a unit does not
  always bring the entry into the comparison. The size \<^verbatim>\<open>0g\<close> parses into the value \<open>0\<close>
  and the unit \<^verbatim>\<open>g\<close>, and the entry is in no group, as the grouping takes a value of \<open>0\<close>
  for no value.
\<close>

theorem zero_size_counterexample:
  "size_match (ascii ''0g'') = Some (ascii ''0'', ascii ''g'')
   \<and> handleAddManualItem example_env (ascii ''Arroz Branco'') (ascii ''10'') (ascii ''0g'') (0, [])
       = (1, [zero_size_item])
   \<and> measureValue zero_size_item = Some (Finite 0)
   \<and> measureUnit zero_size_item = Some (ascii ''g'')
   \<and> comparisonGroups lower_ascii [zero_size_item] = Inr []"
  by code_simp

text \<open>
  C10, amended. Every entry added by the manual form has the quantity \<open>1\<close>. For a name
  that starts with a character other than white space and has no white space but spaces,
  its category is the first word of the trimmed name in lower case. When the size parses
  into a value other than \<open>0\<close> and a unit, the entry carries them, the unit in lower case,
  and whenever the grouping completes the entry is in the group of its category key; for
  such a name the key is that derived category, put in lower case by the grouping once
  more, with spaces for underscores. \<^verbatim>\<open>parseFloat\<close> and \<^verbatim>\<open>toLowerCase\<close> are those of the
  environment, whatever they are.
\<close>

theorem manual_entry_grouping:
  assumes "trim manualName \<noteq> []" and "trim manualPrice \<noteq> []"
    and "parseFloat env (replace_first_comma manualPrice) \<noteq> NaN"
    and "handleAddManualItem env manualName manualPrice manualSize (w, prev) = (w', its)"
  shows "its = hd its # prev \<and> quantity (hd its) = 1
       \<and> (plain_name manualName \<longrightarrow>
             category (hd its) = Some (toLowerCase env (first_word (trim manualName))))
       \<and> (size_match manualSize = Some (d, u) \<and> truthy (parseFloat env d)
            \<and> toLowerCase env u \<noteq> [] \<longrightarrow>
             measureValue (hd its) = Some (parseFloat env d)
           \<and> measureUnit (hd its) = Some (toLowerCase env u)
           \<and> (\<forall>gs. comparisonGroups (toLowerCase env) its = Inr gs \<longrightarrow>
                 (\<exists>g. (category_key (toLowerCase env) (hd its), g) \<in> set gs \<and> hd its \<in> set g))
           \<and> (plain_name manualName \<and> toLowerCase env (first_word (trim manualName)) \<noteq> [] \<longrightarrow>
                 category_key (toLowerCase env) (hd its)
                   = replace_underscores
                       (toLowerCase env (toLowerCase env (first_word (trim manualName))))))"
proof -
  let ?m = "if trim manualSize \<noteq> [] then size_match manualSize else None"
  let ?new = "\<lparr>productName = trim manualName,
        price = parseFloat env (replace_first_comma manualPrice),
        category = Some (toLowerCase env (split_space_first manualName)),
        measureValue = (case ?m of None \<Rightarrow> None | Some (d, u) \<Rightarrow> Some (parseFloat env d)),
        measureUnit = (case ?m of None \<Rightarrow> None | Some (d, u) \<Rightarrow> Some (toLowerCase env u)),
        id_item = fst (uuidv4 env w), quantity = 1\<rparr>"
  from manual_added[OF assms(1-3), of manualSize w prev] assms(4)
  have its: "its = ?new # prev" by simp
  then have hd: "hd its = ?new" by simp
  have 1: "its = hd its # prev" by (simp add: its)
  have 2: "quantity (hd its) = 1" by (simp add: hd)
  have cat: "category (hd its) = Some (toLowerCase env (split_space_first manualName))"
    by (simp add: hd)
  have 3: "category (hd its) = Some (toLowerCase env (first_word (trim manualName)))"
    if "plain_name manualName"
    using first_word_trim(1)[OF that] cat by simp
  have key: "category_key (toLowerCase env) (hd its)
      = replace_underscores (toLowerCase env (toLowerCase env (first_word (trim manualName))))"
    if "plain_name manualName" and "toLowerCase env (first_word (trim manualName)) \<noteq> []"
    using 3[OF that(1)] that(2)
    by (simp add: category_key_def truthy_string_def)
  have 4: "measureValue (hd its) = Some (parseFloat env d)
         \<and> measureUnit (hd its) = Some (toLowerCase env u)
         \<and> (\<forall>gs. comparisonGroups (toLowerCase env) its = Inr gs \<longrightarrow>
               (\<exists>g. (category_key (toLowerCase env) (hd its), g) \<in> set gs \<and> hd its \<in> set g))"
    if m: "size_match manualSize = Some (d, u)" and v: "truthy (parseFloat env d)"
      and l: "toLowerCase env u \<noteq> []"
  proof -
    from size_match_trim[OF m] m have mm: "?m = Some (d, u)" by simp
    have mv: "measureValue (hd its) = Some (parseFloat env d)"
      and mu: "measureUnit (hd its) = Some (toLowerCase env u)"
      unfolding hd by (simp_all add: mm)
    from mv mu v l have hm: "has_measure (hd its)"
      by (simp add: has_measure_def truthy_number_def truthy_string_def)
    have mem: "hd its \<in> set its" by (simp add: its)
    have "\<exists>g. (category_key (toLowerCase env) (hd its), g) \<in> set gs \<and> hd its \<in> set g"
      if "comparisonGroups (toLowerCase env) its = Inr gs" for gs
      using group_of_entry[OF that mem hm] by blast
    with mv mu show ?thesis by blast
  qed
  from 1 2 3 4 key show ?thesis by blast
qed

lemma manual_example:
  "handleAddManualItem example_env (ascii ''Pasta_Dente Extra'') (ascii ''10'') (ascii ''90 G'')
     (0, []) = (1, [manual_item])"
  by code_simp

lemma manual_example_groups:
  "comparisonGroups lower_ascii [manual_item] = Inr [(ascii ''pasta dente'', [manual_item])]"
  by code_simp

theorem manual_entry_grouping_witness:
  "handleAddManualItem example_env (ascii ''Pasta_Dente Extra'') (ascii ''10'') (ascii ''90 G'')
     (0, []) = (1, [manual_item])
   \<and> size_match (ascii ''90 G'') = Some (ascii ''90'', ascii ''G'')
   \<and> parseFloat example_env (ascii ''90'') = Finite 90
   \<and> quantity manual_item = 1
   \<and> first_word (trim (ascii ''Pasta_Dente Extra'')) = ascii ''Pasta_Dente''
   \<and> category manual_item = Some (ascii ''pasta_dente'')
   \<and> measureValue manual_item = Some (Finite 90) \<and> measureUnit manual_item = Some (ascii ''g'')
   \<and> comparisonGroups lower_ascii [manual_item] = Inr [(ascii ''pasta dente'', [manual_item])]
   \<and> category_key lower_ascii manual_item = ascii ''pasta dente''"
proof -
  have a1: "trim (ascii ''Pasta_Dente Extra'') \<noteq> []" and a2: "trim (ascii ''10'') \<noteq> []"
    by code_simp+
  have a3: "parseFloat example_env (replace_first_comma (ascii ''10'')) \<noteq> NaN" by code_simp
  have pn: "plain_name (ascii ''Pasta_Dente Extra'')" by code_simp
  have sm: "size_match (ascii ''90 G'') = Some (ascii ''90'', ascii ''G'')" by code_simp
  have pf: "parseFloat example_env (ascii ''90'') = Finite 90" by code_simp
  have tr: "truthy (Finite 90)" by (simp add: truthy_def)
  have lw: "toLowerCase example_env = lower_ascii" by (simp add: example_env_def)
  have fw: "first_word (trim (ascii ''Pasta_Dente Extra'')) = ascii ''Pasta_Dente''" by code_simp
  have lc: "lower_ascii (ascii ''Pasta_Dente'') = ascii ''pasta_dente''"
    "lower_ascii (ascii ''pasta_dente'') = ascii ''pasta_dente''"
    "lower_ascii (ascii ''G'') = ascii ''g''"
    "replace_underscores (ascii ''pasta_dente'') = ascii ''pasta dente''" by code_simp+
  have ne: "ascii ''pasta_dente'' \<noteq> []" "ascii ''g'' \<noteq> []" by (simp_all add: ascii_def)
  from manual_entry_grouping[OF a1 a2 a3 manual_example, of "ascii ''90''" "ascii ''G''"]
  show ?thesis
    using manual_example manual_example_groups pn sm pf tr lw fw lc ne by simp
qed

subsection \<open>The shared text\<close>

lemma digits_value_snoc: "digits_value (ds @ [c]) = 10 * digits_value ds + (c - 48)"
  by (simp add: digits_value_def)

lemma show_nat_digits:
  "digits_value (show_nat n) = n \<and> (\<forall>c \<in> set (show_nat n). is_digit c) \<and> show_nat n \<noteq> []"
proof (induction n rule: show_nat.induct)
  case (1 n)
  show ?case
  proof (cases "n < 10")
    case True
    then show ?thesis
      by (subst (1 2 3) show_nat.simps)
         (simp add: digits_value_def digit_char_def is_digit_def)
  next
    case False
    with 1 have IH: "digits_value (show_nat (n div 10)) = n div 10"
      "\<forall>c \<in> set (show_nat (n div 10)). is_digit c" by simp_all
    have m: "n mod 10 < 10" by simp
    show ?thesis
      using False IH m
      by (subst (1 2 3) show_nat.simps)
         (simp add: digits_value_snoc digit_char_def is_digit_def)
  qed
qed

lemma ascii_x_space: "ascii ''x '' = [120, 32]"
  by (simp add: ascii_def)

lemma ascii_dash: "ascii '' - '' = [32, 45, 32]"
  by (simp add: ascii_def)

lemma ascii_star: "ascii ''*'' = [42]"
  by (simp add: ascii_def)

lemma leading_quantity_share_line:
  assumes "quantity item \<ge> 0"
  shows "int (leading_quantity (share_line formatCurrency item)) = quantity item"
proof -
  let ?n = "nat (quantity item)"
  from assms have "share_line formatCurrency item
      = show_nat ?n @ 120 # (32 # productName item @ ascii '' - ''
          @ formatCurrency (num_mul (price item) (num_of_int (quantity item))))"
    by (simp add: share_line_def show_int_def ascii_x_space)
  moreover have "takeWhile is_digit (show_nat ?n @ 120 # r) = show_nat ?n" for r
    using show_nat_digits[of ?n] by (simp add: takeWhile_append2 is_digit_def)
  ultimately have "leading_quantity (share_line formatCurrency item) = ?n"
    using show_nat_digits[of ?n] by (simp add: leading_quantity_def)
  with assms show ?thesis by simp
qed

lemma split_lines_line:
  "newline \<notin> set a \<Longrightarrow> split_lines (a @ newline # b) = a # split_lines b"
  by (induction a) auto

lemma split_lines_last: "newline \<notin> set a \<Longrightarrow> split_lines a = [a]"
  by (induction a) auto

lemma split_join_lines:
  "ls \<noteq> [] \<Longrightarrow> \<forall>l \<in> set ls. newline \<notin> set l \<Longrightarrow>
     split_lines (join_lines ls @ newline # rest) = ls @ split_lines rest"
proof (induction ls rule: join_lines.induct)
  case 1
  then show ?case by simp
next
  case (2 l)
  then show ?case by (simp add: split_lines_line)
next
  case (3 l l' ls)
  then have "split_lines (join_lines (l' # ls) @ newline # rest) = (l' # ls) @ split_lines rest"
    by simp
  moreover from 3 have "newline \<notin> set l" by simp
  ultimately show ?case by (simp add: split_lines_line)
qed

lemma header_no_newline: "newline \<notin> set share_header"
  by code_simp

lemma total_prefix_no_newline: "newline \<notin> set total_prefix"
  by code_simp

lemma share_line_no_newline:
  assumes "newline \<notin> set (productName item)"
    and "newline \<notin> set (formatCurrency (num_mul (price item) (num_of_int (quantity item))))"
    and "quantity item \<ge> 0"
  shows "newline \<notin> set (share_line formatCurrency item)"
proof -
  have "\<forall>c \<in> set (show_nat (nat (quantity item))). c \<noteq> newline"
    using show_nat_digits[of "nat (quantity item)"] by (auto simp: is_digit_def newline_def)
  moreover have "newline \<notin> set (ascii ''x '')" "newline \<notin> set (ascii '' - '')"
    by (simp_all add: ascii_x_space ascii_dash newline_def)
  ultimately show ?thesis using assms by (auto simp: share_line_def show_int_def)
qed

lemma split_lines_shareText:
  assumes "its \<noteq> []"
    and "\<forall>item \<in> set its. newline \<notin> set (share_line formatCurrency item)"
    and "newline \<notin> set (formatCurrency (totalCost its))"
  shows "split_lines (shareText formatCurrency its) =
           share_header # [] # map (share_line formatCurrency) its
             @ [[], total_prefix @ formatCurrency (totalCost its) @ ascii ''*'']"
proof -
  let ?total = "total_prefix @ formatCurrency (totalCost its) @ ascii ''*''"
  let ?ls = "map (share_line formatCurrency) its"
  have t: "newline \<notin> set ?total"
    using assms(3) total_prefix_no_newline by (auto simp: ascii_star newline_def)
  have "shareText formatCurrency its
      = share_header @ newline # ([] @ newline # (join_lines ?ls @ newline # ([] @ newline # ?total)))"
    by (simp add: shareText_def)
  also have "split_lines \<dots> = share_header # [] # (?ls @ [[], ?total])"
    using assms(1,2) t
    by (simp only: split_lines_line[OF header_no_newline] split_lines_line[of "[]"]
          split_join_lines split_lines_last)
       (simp add: split_lines_line[of "[]", simplified] split_join_lines split_lines_last)
  finally show ?thesis by simp
qed

lemma sum_leading_quantities:
  "\<forall>item \<in> set its. quantity item \<ge> 0 \<Longrightarrow>
     int (sum_list (map (leading_quantity \<circ> share_line formatCurrency) its))
       = sum_list (map quantity its)"
  by (induction its) (simp_all add: leading_quantity_share_line)

text \<open>
  C9, as stated, fails: a product name goes into the text as it is, so a name with a line
  break in it makes a line of its own. The cart of one entry named
  \<^verbatim>\<open>A - R$ 0,00\<close>, line break, \<^verbatim>\<open>5x B\<close> and the cart of the two entries \<^verbatim>\<open>A\<close> and five
  times \<^verbatim>\<open>B\<close> give the same text, while their item counts are \<open>1\<close> and \<open>6\<close>; the leading
  quantities of the item lines add up to \<open>6\<close>.
\<close>

theorem share_text_counterexample:
  "handleShareList format_brl tricky_cart = Some (shareText format_brl plain_cart)
   \<and> handleShareList format_brl plain_cart = Some (shareText format_brl plain_cart)
   \<and> itemCount tricky_cart = 1 \<and> itemCount plain_cart = 6
   \<and> parsed_item_count (shareText format_brl plain_cart) = 6"
  by code_simp

text \<open>
  C9, amended. For a cart that is not empty, with quantities of at least \<open>1\<close>, product
  names without line break and a formatter that prints none: the leading quantities of
  the item lines of the shared text add up to the item count, and the final total line
  carries the formatted total cost, the text the totals display shows.
\<close>

theorem share_text_round_trip:
  assumes "handleShareList formatCurrency its = Some shared"
    and "\<forall>item \<in> set its. quantity item \<ge> 1 \<and> newline \<notin> set (productName item)
           \<and> newline \<notin> set (formatCurrency (num_mul (price item) (num_of_int (quantity item))))"
    and "newline \<notin> set (formatCurrency (totalCost its))"
  shows "int (parsed_item_count shared) = itemCount its
       \<and> parsed_total shared = formatCurrency (totalCost its)"
proof -
  from assms(1) have ne: "its \<noteq> []" and sh: "shared = shareText formatCurrency its"
    by (auto simp: handleShareList_def split: if_splits)
  let ?ls = "map (share_line formatCurrency) its"
  let ?total = "total_prefix @ formatCurrency (totalCost its) @ ascii ''*''"
  have nl: "\<forall>item \<in> set its. newline \<notin> set (share_line formatCurrency item)"
  proof
    fix item assume "item \<in> set its"
    with assms(2) have "quantity item \<ge> 0" "newline \<notin> set (productName item)"
      "newline \<notin> set (formatCurrency (num_mul (price item) (num_of_int (quantity item))))"
      by fastforce+
    then show "newline \<notin> set (share_line formatCurrency item)"
      by (intro share_line_no_newline)
  qed
  have q0: "\<forall>item \<in> set its. quantity item \<ge> 0" using assms(2) by fastforce
  have sl: "split_lines shared = share_header # [] # ?ls @ [[], ?total]"
    unfolding sh by (rule split_lines_shareText[OF ne nl assms(3)])
  have "item_lines shared = ?ls"
    by (simp add: item_lines_def sl)
  then have "int (parsed_item_count shared) = sum_list (map quantity its)"
    using q0 by (simp add: parsed_item_count_def sum_leading_quantities)
  then have 1: "int (parsed_item_count shared) = itemCount its"
    by (simp add: itemCount_sum)
  have "last (split_lines shared) = ?total" by (simp add: sl)
  then have 2: "parsed_total shared = formatCurrency (totalCost its)"
    by (simp add: parsed_total_def butlast_append ascii_star)
  from 1 2 show ?thesis ..
qed

lemma example_share_ok:
  "\<forall>item \<in> set example_cart. quantity item \<ge> 1 \<and> newline \<notin> set (productName item)
     \<and> newline \<notin> set (format_brl (num_mul (price item) (num_of_int (quantity item))))"
  by code_simp

lemma example_total_ok: "newline \<notin> set (format_brl (totalCost example_cart))"
  by code_simp

lemma example_share:
  "handleShareList format_brl example_cart = Some (shareText format_brl example_cart)"
  by (simp add: handleShareList_def example_cart_def)

theorem share_text_round_trip_witness:
  "handleShareList format_brl example_cart = Some (shareText format_brl example_cart)
   \<and> itemCount example_cart = 5 \<and> totalCost example_cart = Finite 49
   \<and> int (parsed_item_count (shareText format_brl example_cart)) = 5
   \<and> parsed_total (shareText format_brl example_cart) = format_brl (Finite 49)"
proof -
  have c: "itemCount example_cart = 5" and t: "totalCost example_cart = Finite 49" by code_simp+
  from share_text_round_trip[OF example_share example_share_ok example_total_ok]
  show ?thesis using example_share c t by simp
qed

end
